theory Spec2Isabelle
  imports Complex_Main "HOL-Library.Word" "HOL-Library.Char_ord"
begin

unbundle bit_operations_syntax

section \<open>Protocol constants and wire structures (protocol.h)\<close>

type_synonym u8 = "8 word"
type_synonym u16 = "16 word"
type_synonym u32 = "32 word"
type_synonym u64 = "64 word"

definition FT_PROTOCOL_VERSION :: u8 where "FT_PROTOCOL_VERSION = 0x01"
definition FT_MAGIC_NUMBER :: u32 where "FT_MAGIC_NUMBER = 0x46544350"
definition FT_DEFAULT_CHUNK_SIZE :: u32 where "FT_DEFAULT_CHUNK_SIZE = 524288"
definition FT_MAX_FILENAME_LEN :: nat where "FT_MAX_FILENAME_LEN = 256"
definition FT_MAX_RETRIES :: nat where "FT_MAX_RETRIES = 3"
definition FT_HEADER_SIZE :: nat where "FT_HEADER_SIZE = 32"
definition FT_FILE_INFO_SIZE :: nat where "FT_FILE_INFO_SIZE = 1024"
definition FT_CHUNK_HEADER_SIZE :: nat where "FT_CHUNK_HEADER_SIZE = 24"
definition FT_SHA256_SIZE :: nat where "FT_SHA256_SIZE = 32"

text \<open>The \<open>MessageType\<close> enum, as the byte each enumerator stands for.\<close>

definition MSG_HANDSHAKE_REQ :: u8 where "MSG_HANDSHAKE_REQ = 0x01"
definition MSG_HANDSHAKE_ACK :: u8 where "MSG_HANDSHAKE_ACK = 0x02"
definition MSG_FILE_INFO :: u8 where "MSG_FILE_INFO = 0x03"
definition MSG_FILE_ACK :: u8 where "MSG_FILE_ACK = 0x04"
definition MSG_CHUNK_DATA :: u8 where "MSG_CHUNK_DATA = 0x05"
definition MSG_CHUNK_ACK :: u8 where "MSG_CHUNK_ACK = 0x06"
definition MSG_TRANSFER_COMPLETE :: u8 where "MSG_TRANSFER_COMPLETE = 0x07"
definition MSG_VERIFY_REQUEST :: u8 where "MSG_VERIFY_REQUEST = 0x08"
definition MSG_VERIFY_RESPONSE :: u8 where "MSG_VERIFY_RESPONSE = 0x09"
definition MSG_ERROR :: u8 where "MSG_ERROR = 0xFF"

lemmas msg_defs = MSG_HANDSHAKE_REQ_def MSG_HANDSHAKE_ACK_def MSG_FILE_INFO_def
  MSG_FILE_ACK_def MSG_CHUNK_DATA_def MSG_CHUNK_ACK_def MSG_TRANSFER_COMPLETE_def
  MSG_VERIFY_REQUEST_def MSG_VERIFY_RESPONSE_def MSG_ERROR_def

datatype FTErrorCode =
    FT_SUCCESS
  | FT_ERR_SOCKET
  | FT_ERR_CONNECT
  | FT_ERR_BIND
  | FT_ERR_LISTEN
  | FT_ERR_ACCEPT
  | FT_ERR_SEND
  | FT_ERR_RECV
  | FT_ERR_TIMEOUT
  | FT_ERR_FILE_OPEN
  | FT_ERR_FILE_READ
  | FT_ERR_FILE_WRITE
  | FT_ERR_FILE_SEEK
  | FT_ERR_DISK_FULL
  | FT_ERR_PERMISSION
  | FT_ERR_CHECKSUM
  | FT_ERR_PROTOCOL
  | FT_ERR_VERSION
  | FT_ERR_INVALID_MSG
  | FT_ERR_OUT_OF_MEMORY
  | FT_ERR_INVALID_ARG
  | FT_ERR_FILE_NOT_FOUND
  | FT_ERR_FILENAME_TOO_LONG

text \<open>The numeric value of each error code, as the enum declares it.\<close>

fun error_value :: "FTErrorCode \<Rightarrow> int" where
  "error_value FT_SUCCESS = 0"
| "error_value FT_ERR_SOCKET = -1"
| "error_value FT_ERR_CONNECT = -2"
| "error_value FT_ERR_BIND = -3"
| "error_value FT_ERR_LISTEN = -4"
| "error_value FT_ERR_ACCEPT = -5"
| "error_value FT_ERR_SEND = -6"
| "error_value FT_ERR_RECV = -7"
| "error_value FT_ERR_TIMEOUT = -8"
| "error_value FT_ERR_FILE_OPEN = -10"
| "error_value FT_ERR_FILE_READ = -11"
| "error_value FT_ERR_FILE_WRITE = -12"
| "error_value FT_ERR_FILE_SEEK = -13"
| "error_value FT_ERR_DISK_FULL = -14"
| "error_value FT_ERR_PERMISSION = -15"
| "error_value FT_ERR_CHECKSUM = -20"
| "error_value FT_ERR_PROTOCOL = -21"
| "error_value FT_ERR_VERSION = -22"
| "error_value FT_ERR_INVALID_MSG = -23"
| "error_value FT_ERR_OUT_OF_MEMORY = -30"
| "error_value FT_ERR_INVALID_ARG = -31"
| "error_value FT_ERR_FILE_NOT_FOUND = -32"
| "error_value FT_ERR_FILENAME_TOO_LONG = -33"

record MessageHeader =
  magic :: u32
  version :: u8
  msg_type :: u8
  flags :: u16
  sequence_num :: u64
  payload_size :: u64
  checksum :: u32
  reserved :: u32

section \<open>Byte order (arpa/inet.h, platform.h)\<close>

text \<open>
  A value's bytes, least significant first, and the value a byte sequence stands for
  when read the same way. \<open>be_bytes\<close> and \<open>word_be\<close> are the same with the most
  significant byte first (network byte order).
\<close>

definition le_bytes :: "nat \<Rightarrow> 'a::len word \<Rightarrow> u8 list" where
  "le_bytes k x = map (\<lambda>i. ucast (drop_bit (8 * i) x)) [0..<k]"

fun word_le :: "u8 list \<Rightarrow> 'a::len word" where
  "word_le [] = 0"
| "word_le (b # bs) = ucast b OR push_bit 8 (word_le bs)"

definition be_bytes :: "nat \<Rightarrow> 'a::len word \<Rightarrow> u8 list" where
  "be_bytes k x = rev (le_bytes k x)"

definition word_be :: "u8 list \<Rightarrow> 'a::len word" where
  "word_be bs = word_le (rev bs)"

text \<open>
  The host's byte order is a parameter of the model: \<open>le\<close> is true on a little-endian
  host. \<open>host_bytes le k x\<close> is the object representation of the \<open>k\<close>-byte integer \<open>x\<close>
  in the host's memory, \<open>host_word le bs\<close> the integer those bytes hold.
\<close>

definition host_bytes :: "bool \<Rightarrow> nat \<Rightarrow> 'a::len word \<Rightarrow> u8 list" where
  "host_bytes le k x = (if le then le_bytes k x else be_bytes k x)"

definition host_word :: "bool \<Rightarrow> u8 list \<Rightarrow> 'a::len word" where
  "host_word le bs = (if le then word_le bs else word_be bs)"

text \<open>
  The C library's conversions: \<open>htonl x\<close> is the integer whose host representation is
  \<open>x\<close> in network byte order, \<open>ntohl x\<close> the integer that the host representation of
  \<open>x\<close> spells in network byte order (the identity on a big-endian host, a byte swap on
  a little-endian one).
\<close>

definition htons :: "bool \<Rightarrow> u16 \<Rightarrow> u16" where
  "htons le x = host_word le (be_bytes 2 x)"

definition htonl :: "bool \<Rightarrow> u32 \<Rightarrow> u32" where
  "htonl le x = host_word le (be_bytes 4 x)"

definition ntohs :: "bool \<Rightarrow> u16 \<Rightarrow> u16" where
  "ntohs le x = word_be (host_bytes le 2 x)"

definition ntohl :: "bool \<Rightarrow> u32 \<Rightarrow> u32" where
  "ntohl le x = word_be (host_bytes le 4 x)"

text \<open>
  The macros of platform.h:
  \<^verbatim>\<open>#define htonll(x) ((1==htonl(1)) ? (x) :
      ((uint64_t)htonl((x) & 0xFFFFFFFF) << 32) | htonl((x) >> 32))\<close>
  and \<open>ntohll\<close> alike with \<open>ntohl\<close>.
\<close>

definition htonll :: "bool \<Rightarrow> u64 \<Rightarrow> u64" where
  "htonll le x =
     (if 1 = htonl le 1 then x
      else push_bit 32 (ucast (htonl le (ucast (x AND 0xFFFFFFFF))) :: u64)
           OR ucast (htonl le (ucast (drop_bit 32 x))))"

definition ntohll :: "bool \<Rightarrow> u64 \<Rightarrow> u64" where
  "ntohll le x =
     (if 1 = ntohl le 1 then x
      else push_bit 32 (ucast (ntohl le (ucast (x AND 0xFFFFFFFF))) :: u64)
           OR ucast (ntohl le (ucast (drop_bit 32 x))))"

section \<open>Buffers\<close>

text \<open>
  A byte buffer is a list of bytes. \<open>store_bytes buffer off bs\<close> overwrites the bytes
  from offset \<open>off\<close> on; the callers' buffers are large enough for every store the code
  makes (a store beyond the end of the buffer is undefined in C). The stores through
  \<open>uint16_t*\<close>, \<open>uint32_t*\<close> and \<open>uint64_t*\<close> casts write the host representation of
  the value, the loads read it; offsets are in bytes.
\<close>

definition store_bytes :: "u8 list \<Rightarrow> nat \<Rightarrow> u8 list \<Rightarrow> u8 list" where
  "store_bytes buffer off bs = take off buffer @ bs @ drop (off + length bs) buffer"

definition load_bytes :: "u8 list \<Rightarrow> nat \<Rightarrow> nat \<Rightarrow> u8 list" where
  "load_bytes buffer off n = take n (drop off buffer)"

definition store16 :: "bool \<Rightarrow> u8 list \<Rightarrow> nat \<Rightarrow> u16 \<Rightarrow> u8 list" where
  "store16 le buffer off x = store_bytes buffer off (host_bytes le 2 x)"

definition store32 :: "bool \<Rightarrow> u8 list \<Rightarrow> nat \<Rightarrow> u32 \<Rightarrow> u8 list" where
  "store32 le buffer off x = store_bytes buffer off (host_bytes le 4 x)"

definition store64 :: "bool \<Rightarrow> u8 list \<Rightarrow> nat \<Rightarrow> u64 \<Rightarrow> u8 list" where
  "store64 le buffer off x = store_bytes buffer off (host_bytes le 8 x)"

definition load16 :: "bool \<Rightarrow> u8 list \<Rightarrow> nat \<Rightarrow> u16" where
  "load16 le buffer off = host_word le (load_bytes buffer off 2)"

definition load32 :: "bool \<Rightarrow> u8 list \<Rightarrow> nat \<Rightarrow> u32" where
  "load32 le buffer off = host_word le (load_bytes buffer off 4)"

definition load64 :: "bool \<Rightarrow> u8 list \<Rightarrow> nat \<Rightarrow> u64" where
  "load64 le buffer off = host_word le (load_bytes buffer off 8)"

section \<open>CRC-32 (checksum.h)\<close>

text \<open>
  Modelled from the spec: \<open>crc32_compute\<close>, which checksum.h declares and whose
  definition (checksum.c) is not among the sources. The spec (4.1) asks for "a CRC-32
  function producing IEEE 802.3 polynomial results over a byte range", "table-based or
  equivalent": the reflected polynomial \<open>0xEDB88320\<close>, initial value and final
  complement \<open>0xFFFFFFFF\<close>, one shift per bit. The argument is the byte range
  \<open>data[0..length)\<close>.
\<close>

definition crc32_shift :: "u32 \<Rightarrow> u32" where
  "crc32_shift c = (if bit c 0 then drop_bit 1 c XOR 0xEDB88320 else drop_bit 1 c)"

definition crc32_byte :: "u32 \<Rightarrow> u8 \<Rightarrow> u32" where
  "crc32_byte c b = crc32_shift (crc32_shift (crc32_shift (crc32_shift
     (crc32_shift (crc32_shift (crc32_shift (crc32_shift (c XOR ucast b))))))))"

definition crc32_compute :: "u8 list \<Rightarrow> u32" where
  "crc32_compute data = foldl crc32_byte 0xFFFFFFFF data XOR 0xFFFFFFFF"

section \<open>Frame codec (protocol.c)\<close>

text \<open>
  \<open>protocol_init_header\<close>: \<open>memset\<close> to zero, then the fields; the checksum stays zero
  ("Checksum will be computed during serialization").
\<close>

definition protocol_init_header :: "u8 \<Rightarrow> u64 \<Rightarrow> u64 \<Rightarrow> MessageHeader" where
  "protocol_init_header msg_type' sequence_num' payload_size' =
     \<lparr> magic = FT_MAGIC_NUMBER,
       version = FT_PROTOCOL_VERSION,
       msg_type = msg_type',
       flags = 0,
       sequence_num = sequence_num',
       payload_size = payload_size',
       checksum = 0,
       reserved = 0 \<rparr>"

text \<open>
  \<open>protocol_serialize_header\<close> writes into the caller's 32-byte buffer: \<open>buf32[0]\<close>,
  \<open>buffer[4]\<close>, \<open>buffer[5]\<close>, \<open>buf16[3]\<close>, \<open>buf64[1]\<close>, \<open>buf64[2]\<close>, then the CRC-32 of
  the first 24 bytes at \<open>buf32[6]\<close> and the reserved word at \<open>buf32[7]\<close>. The header's own
  \<open>checksum\<close> field is not read.
\<close>

definition protocol_serialize_header :: "bool \<Rightarrow> MessageHeader \<Rightarrow> u8 list \<Rightarrow> u8 list" where
  "protocol_serialize_header le header buffer =
     (let buffer = store32 le buffer (4 * 0) (htonl le (magic header));
          buffer = store_bytes buffer 4 [version header];
          buffer = store_bytes buffer 5 [msg_type header];
          buffer = store16 le buffer (2 * 3) (htons le (flags header));
          buffer = store64 le buffer (8 * 1) (htonll le (sequence_num header));
          buffer = store64 le buffer (8 * 2) (htonll le (payload_size header));
          checksum = crc32_compute (take 24 buffer);
          buffer = store32 le buffer (4 * 6) (htonl le checksum);
          buffer = store32 le buffer (4 * 7) (htonl le (reserved header))
      in buffer)"

text \<open>\<open>protocol_deserialize_header\<close> reads the same places back; it always returns 0.\<close>

definition protocol_deserialize_header :: "bool \<Rightarrow> u8 list \<Rightarrow> MessageHeader" where
  "protocol_deserialize_header le buffer =
     \<lparr> magic = ntohl le (load32 le buffer (4 * 0)),
       version = buffer ! 4,
       msg_type = buffer ! 5,
       flags = ntohs le (load16 le buffer (2 * 3)),
       sequence_num = ntohll le (load64 le buffer (8 * 1)),
       payload_size = ntohll le (load64 le buffer (8 * 2)),
       checksum = ntohl le (load32 le buffer (4 * 6)),
       reserved = ntohl le (load32 le buffer (4 * 7)) \<rparr>"

section \<open>Strings and file info (protocol.h, protocol.c)\<close>

text \<open>
  A C \<open>char\<close> is a \<^typ>\<open>char\<close>; a \<open>char\<close> array is a list of them, and the C string it
  holds is what precedes the first NUL. \<open>byte_of_char\<close> and \<open>char_of_byte\<close> are the
  reinterpretations that \<open>memcpy\<close> between \<open>char\<close> and \<open>uint8_t\<close> arrays makes.
\<close>

definition NUL :: char where
  "NUL = CHR 0x00"

definition byte_of_char :: "char \<Rightarrow> u8" where
  "byte_of_char c = word_of_nat (of_char c)"

definition char_of_byte :: "u8 \<Rightarrow> char" where
  "char_of_byte b = char_of (unat b)"

definition c_str :: "char list \<Rightarrow> string" where
  "c_str cs = takeWhile (\<lambda>c. c \<noteq> NUL) cs"

text \<open>
  \<open>strncpy(dst, src, n)\<close> for a C string \<open>src\<close>: the first \<open>n\<close> places of the
  destination hold the string cut to \<open>n\<close> characters and padded with NULs.
\<close>

definition strncpy :: "string \<Rightarrow> nat \<Rightarrow> char list" where
  "strncpy src n = take n src @ replicate (n - length src) NUL"

text \<open>
  The wire structures. Two structures of protocol.h have a field \<open>chunk_size\<close> and two a
  field \<open>chunk_id\<close>; the chunk header's are \<open>chunk_hdr_size\<close> here and the
  acknowledgment's \<open>ack_chunk_id\<close>. The 669 reserved bytes of \<open>FileInfo\<close> are never read
  and are left out.
\<close>

record FileInfo =
  filename_len :: u16
  filename :: "char list"
  file_size :: u64
  total_chunks :: u64
  chunk_size :: u32
  checksum_type :: u8
  file_checksum :: "u8 list"
  file_mode :: u32
  timestamp :: u64

record ChunkHeader =
  chunk_id :: u64
  chunk_offset :: u64
  chunk_hdr_size :: u32
  chunk_crc32 :: u32

record ChunkAck =
  ack_chunk_id :: u64
  status :: u8

definition CHECKSUM_SHA256 :: u8 where "CHECKSUM_SHA256 = 2"

text \<open>
  \<open>protocol_serialize_file_info\<close>: the running \<open>offset\<close> of the source is written out
  (2, 258, 266, 274, 278, 279, 311, 315, 323); the \<open>memset\<close> of 669 bytes ends at offset
  992, so the last 32 bytes of a 1024-byte buffer keep what the caller had there.
\<close>

definition protocol_serialize_file_info :: "bool \<Rightarrow> FileInfo \<Rightarrow> u8 list \<Rightarrow> u8 list" where
  "protocol_serialize_file_info le file_info buffer =
     (let buffer = store16 le buffer (2 * 0) (htons le (filename_len file_info));
          buffer = store_bytes buffer 2
                     (map byte_of_char (take FT_MAX_FILENAME_LEN (filename file_info)));
          buffer = store64 le buffer 258 (htonll le (file_size file_info));
          buffer = store64 le buffer 266 (htonll le (total_chunks file_info));
          buffer = store32 le buffer 274 (htonl le (chunk_size file_info));
          buffer = store_bytes buffer 278 [checksum_type file_info];
          buffer = store_bytes buffer 279 (take FT_SHA256_SIZE (file_checksum file_info));
          buffer = store32 le buffer 311 (htonl le (file_mode file_info));
          buffer = store64 le buffer 315 (htonll le (timestamp file_info));
          buffer = store_bytes buffer 323 (replicate 669 0)
      in buffer)"

text \<open>
  \<open>protocol_deserialize_file_info\<close>: after the \<open>memcpy\<close> of the 256 filename bytes,
  \<open>filename[FT_MAX_FILENAME_LEN - 1] = '\0'\<close>.
\<close>

definition protocol_deserialize_file_info :: "bool \<Rightarrow> u8 list \<Rightarrow> FileInfo" where
  "protocol_deserialize_file_info le buffer =
     \<lparr> filename_len = ntohs le (load16 le buffer (2 * 0)),
       filename = (map char_of_byte (load_bytes buffer 2 FT_MAX_FILENAME_LEN))
                    [FT_MAX_FILENAME_LEN - 1 := NUL],
       file_size = ntohll le (load64 le buffer 258),
       total_chunks = ntohll le (load64 le buffer 266),
       chunk_size = ntohl le (load32 le buffer 274),
       checksum_type = buffer ! 278,
       file_checksum = load_bytes buffer 279 FT_SHA256_SIZE,
       file_mode = ntohl le (load32 le buffer 311),
       timestamp = ntohll le (load64 le buffer 315) \<rparr>"

text \<open>The chunk header: \<open>buf64[0]\<close>, \<open>buf64[1]\<close>, then two \<open>uint32_t\<close> from offset 16.\<close>

definition protocol_serialize_chunk_header :: "bool \<Rightarrow> ChunkHeader \<Rightarrow> u8 list \<Rightarrow> u8 list" where
  "protocol_serialize_chunk_header le chunk_hdr buffer =
     (let buffer = store64 le buffer (8 * 0) (htonll le (chunk_id chunk_hdr));
          buffer = store64 le buffer (8 * 1) (htonll le (chunk_offset chunk_hdr));
          buffer = store32 le buffer (16 + 4 * 0) (htonl le (chunk_hdr_size chunk_hdr));
          buffer = store32 le buffer (16 + 4 * 1) (htonl le (chunk_crc32 chunk_hdr))
      in buffer)"

definition protocol_deserialize_chunk_header :: "bool \<Rightarrow> u8 list \<Rightarrow> ChunkHeader" where
  "protocol_deserialize_chunk_header le buffer =
     \<lparr> chunk_id = ntohll le (load64 le buffer (8 * 0)),
       chunk_offset = ntohll le (load64 le buffer (8 * 1)),
       chunk_hdr_size = ntohl le (load32 le buffer (16 + 4 * 0)),
       chunk_crc32 = ntohl le (load32 le buffer (16 + 4 * 1)) \<rparr>"

section \<open>Header validation (protocol.c)\<close>

text \<open>
  \<open>protocol_validate_header\<close>: the three checks in the order of the source. The message
  type is a \<open>uint8_t\<close>; both comparisons are unsigned.
\<close>

definition protocol_validate_header :: "MessageHeader \<Rightarrow> FTErrorCode" where
  "protocol_validate_header header =
     (if magic header \<noteq> FT_MAGIC_NUMBER then FT_ERR_PROTOCOL
      else if version header \<noteq> FT_PROTOCOL_VERSION then FT_ERR_VERSION
      else if msg_type header < MSG_HANDSHAKE_REQ \<or>
              (msg_type header > MSG_VERIFY_RESPONSE \<and> msg_type header \<noteq> MSG_ERROR)
           then FT_ERR_INVALID_MSG
      else FT_SUCCESS)"

text \<open>The message types the protocol declares: \<open>0x01\<close> to \<open>0x09\<close> and \<open>MSG_ERROR = 0xFF\<close>.\<close>

definition declared_msg_type :: "u8 \<Rightarrow> bool" where
  "declared_msg_type t \<longleftrightarrow> t \<in> {0x01, 0x02, 0x03, 0x04, 0x05, 0x06, 0x07, 0x08, 0x09, 0xFF}"

section \<open>The environment\<close>

text \<open>
  The program's environment is one record, passed through every operation that touches
  it. What the operating system and the peer decide is a field of it:
  \<^item> \<open>little_endian\<close>: the host's byte order;
  \<^item> \<open>uninit\<close>: what the bytes of a local array read as before anything was stored in
    them, by the name of the array and the position of the byte (the contents of the
    stack, which the program does not choose);
  \<^item> \<open>inbox\<close>: the bytes the peer delivers on the connection before it ends, \<open>outbox\<close>
    the bytes sent to the peer, \<open>send_budget\<close> how many more bytes the connection takes
    before \<open>send\<close> fails;
  \<^item> \<open>files\<close>: the contents of the files by path, \<open>stats\<close> what \<open>stat\<close> answers for a
    path (a file that another process changes after \<open>stat\<close> has a size there that is not
    the length of its contents);
  \<^item> \<open>fopen_errno\<close>: the error, if any, that \<open>fopen\<close> meets on a path; \<open>read_fault\<close>:
    after how many bytes of a read, if at all, the stream's error indicator is set;
    \<open>seek_ok\<close>: whether \<open>fseeko\<close> on a file accepts an offset (a file system refuses
    offsets beyond its limit); \<open>write_budget\<close>: how many more bytes \<open>fwrite\<close> can write,
    and \<open>write_errno\<close> the error it meets then; \<open>fflush_errno\<close>: the error, if any, that
    \<open>fflush\<close> meets; \<open>rename_errno\<close>: the error, if any, that \<open>rename\<close> meets;
  \<^item> \<open>disk_available\<close>: \<open>f_bavail * f_frsize\<close> of \<open>statvfs\<close>, \<open>None\<close> when it fails;
  \<^item> \<open>malloc_ok\<close>: whether \<open>malloc\<close> of a size returns a block.
  Paths are for a Unix host (\<open>PATH_SEPARATOR\<close> is \<open>'/'\<close>); the code under
  \<open>#ifdef FT_PLATFORM_WINDOWS\<close> is not modelled. The result of \<open>fclose\<close> is not read by
  the program.
\<close>

datatype errno = ENOENT | EACCES | ENOSPC | EIO

record stat_t =
  st_size :: u64
  st_mode :: u32
  st_mtime :: u64

record world =
  little_endian :: bool
  uninit :: "string \<Rightarrow> nat \<Rightarrow> u8"
  inbox :: "u8 list"
  outbox :: "u8 list"
  send_budget :: nat
  files :: "string \<Rightarrow> u8 list option"
  stats :: "string \<Rightarrow> stat_t option"
  fopen_errno :: "string \<Rightarrow> errno option"
  read_fault :: "nat option"
  seek_ok :: "string \<Rightarrow> u64 \<Rightarrow> bool"
  write_budget :: nat
  write_errno :: errno
  fflush_errno :: "errno option"
  rename_errno :: "errno option"
  disk_available :: "u64 option"
  malloc_ok :: "nat \<Rightarrow> bool"

text \<open>A local array \<open>uint8_t name[n]\<close> as it is before the program stores into it.\<close>

definition stack_buffer :: "world \<Rightarrow> string \<Rightarrow> nat \<Rightarrow> u8 list" where
  "stack_buffer w name n = map (uninit w name) [0..<n]"

lemma length_stack_buffer [simp]: "length (stack_buffer w name n) = n"
  by (simp add: stack_buffer_def)

definition PATH_SEPARATOR :: char where
  "PATH_SEPARATOR = CHR ''/''"

definition S_ISREG :: "u32 \<Rightarrow> bool" where
  "S_ISREG m \<longleftrightarrow> m AND 0xF000 = 0x8000"

text \<open>\<open>snprintf(path, size, ...)\<close> keeps the first \<open>size - 1\<close> characters of the text.\<close>

definition snprintf :: "nat \<Rightarrow> string \<Rightarrow> string" where
  "snprintf size' str = take (size' - 1) str"

definition contents :: "world \<Rightarrow> string \<Rightarrow> u8 list" where
  "contents w path = (case files w path of None \<Rightarrow> [] | Some c \<Rightarrow> c)"

text \<open>Writing \<open>bs\<close> at an offset of a file; a gap behind the old end reads as zeros.\<close>

definition overlay :: "u8 list \<Rightarrow> nat \<Rightarrow> u8 list \<Rightarrow> u8 list" where
  "overlay c off bs = take off c @ replicate (off - length c) 0 @ bs @ drop (off + length bs) c"

section \<open>File operations (fileio.c)\<close>

text \<open>A \<open>FILE*\<close> is the path it was opened on; \<open>NULL\<close> is \<open>None\<close>.\<close>

type_synonym FILE = string

record FileMetadata =
  md_filename :: "char list"
  md_file_size :: u64
  md_file_mode :: u32
  md_timestamp :: u64

definition file_open_read :: "world \<Rightarrow> string \<Rightarrow> FTErrorCode + FILE" where
  "file_open_read w filepath =
     (let err = (case fopen_errno w filepath of
                   Some e \<Rightarrow> Some e
                 | None \<Rightarrow> (if files w filepath = None then Some ENOENT else None))
      in case err of
           Some e \<Rightarrow> Inl (if e = ENOENT then FT_ERR_FILE_NOT_FOUND
                          else if e = EACCES then FT_ERR_PERMISSION else FT_ERR_FILE_OPEN)
         | None \<Rightarrow> Inr filepath)"

text \<open>
  \<open>file_open_write\<close> builds the temp path \<open><output_dir>/.<filename>.tmp\<close> and opens it
  with mode \<open>"wb"\<close>, which creates the file or empties it. It returns the handle and the
  temp path.
\<close>

definition temp_path_of :: "string \<Rightarrow> string \<Rightarrow> nat \<Rightarrow> string" where
  "temp_path_of output_dir filename' temp_path_size =
     snprintf temp_path_size (output_dir @ [PATH_SEPARATOR] @ ''.'' @ filename' @ ''.tmp'')"

definition file_open_write ::
  "world \<Rightarrow> string \<Rightarrow> string \<Rightarrow> nat \<Rightarrow> (FTErrorCode + FILE \<times> string) \<times> world" where
  "file_open_write w output_dir filename' temp_path_size =
     (let temp_path = temp_path_of output_dir filename' temp_path_size
      in case fopen_errno w temp_path of
           Some e \<Rightarrow> (Inl (if e = ENOSPC then FT_ERR_DISK_FULL
                           else if e = EACCES then FT_ERR_PERMISSION else FT_ERR_FILE_OPEN), w)
         | None \<Rightarrow> (Inr (temp_path, temp_path), w\<lparr>files := (files w)(temp_path \<mapsto> [])\<rparr>))"

text \<open>\<open>file_finalize_write\<close>: the \<open>rename\<close> of the temp path to the final path.\<close>

definition file_finalize_write :: "world \<Rightarrow> string \<Rightarrow> string \<Rightarrow> FTErrorCode \<times> world" where
  "file_finalize_write w temp_path final_path =
     (if rename_errno w \<noteq> None \<or> files w temp_path = None then (FT_ERR_FILE_WRITE, w)
      else if temp_path = final_path then (FT_SUCCESS, w)
      else (FT_SUCCESS,
            w\<lparr>files := (files w)(final_path := files w temp_path, temp_path := None)\<rparr>))"

text \<open>
  \<open>fseeko(file, (off_t)offset, SEEK_SET)\<close> returns 0 (here \<open>True\<close>) when the offset is not
  negative as an \<open>off_t\<close> and the file system accepts it.
\<close>

definition fseeko :: "world \<Rightarrow> FILE \<Rightarrow> u64 \<Rightarrow> bool" where
  "fseeko w file offset \<longleftrightarrow> 0 \<le> sint offset \<and> seek_ok w file offset"

text \<open>
  \<open>file_read_chunk\<close>: \<open>fseeko\<close>, then one \<open>fread\<close> of \<open>chunk_size\<close> bytes. \<open>fread\<close> returns
  what the file holds from the offset on, at most \<open>chunk_size\<close> bytes, and fewer when a
  read fault strikes. Only \<open>read == 0 && ferror(file)\<close> is an error; the bytes read and
  their number (\<open>*bytes_read\<close>) are the result otherwise.
\<close>

definition fread :: "world \<Rightarrow> FILE \<Rightarrow> nat \<Rightarrow> nat \<Rightarrow> u8 list" where
  "fread w file off n =
     (let available = take n (drop off (contents w file))
      in case read_fault w of None \<Rightarrow> available | Some k \<Rightarrow> take k available)"

definition ferror :: "world \<Rightarrow> bool" where
  "ferror w \<longleftrightarrow> read_fault w \<noteq> None"

definition file_read_chunk :: "world \<Rightarrow> FILE \<Rightarrow> u64 \<Rightarrow> nat \<Rightarrow> FTErrorCode + u8 list" where
  "file_read_chunk w file offset chunk_size' =
     (if \<not> fseeko w file offset then Inl FT_ERR_FILE_SEEK
      else let read = fread w file (unat offset) chunk_size'
           in if length read = 0 \<and> ferror w then Inl FT_ERR_FILE_READ
              else Inr read)"

text \<open>
  \<open>file_write_chunk\<close>: \<open>fseeko\<close>, then \<open>fwrite\<close> of the \<open>chunk_size\<close> bytes of the buffer
  (here the list \<open>buffer\<close> itself), then \<open>fflush\<close>; a short write is an error, and so is
  a failure of \<open>fflush\<close>.
\<close>

definition file_write_chunk ::
  "world \<Rightarrow> FILE \<Rightarrow> u64 \<Rightarrow> u8 list \<Rightarrow> (FTErrorCode + unit) \<times> world" where
  "file_write_chunk w file offset buffer =
     (if \<not> fseeko w file offset then (Inl FT_ERR_FILE_SEEK, w)
      else let written = min (length buffer) (write_budget w);
               w' = w\<lparr>files := (files w)(file \<mapsto>
                          overlay (contents w file) (unat offset) (take written buffer)),
                      write_budget := write_budget w - written\<rparr>
           in if written \<noteq> length buffer
              then (Inl (if write_errno w = ENOSPC then FT_ERR_DISK_FULL
                         else FT_ERR_FILE_WRITE), w')
              else if fflush_errno w \<noteq> None then (Inl FT_ERR_FILE_WRITE, w')
              else (Inr (), w'))"

text \<open>
  \<open>file_get_metadata\<close>: the name behind the last path separator, cut to 255 characters
  and terminated, and the size, mode and time of \<open>stat\<close>. \<open>st_size\<close> is an \<open>off_t\<close>: a
  64-bit word whose signed reading (\<open>sint\<close>) is the size; the cast to \<open>uint64_t\<close> keeps the
  bits.
\<close>

definition basename_of :: "string \<Rightarrow> string" where
  "basename_of filepath = rev (takeWhile (\<lambda>c. c \<noteq> PATH_SEPARATOR) (rev filepath))"

definition file_get_metadata :: "world \<Rightarrow> string \<Rightarrow> FTErrorCode + FileMetadata" where
  "file_get_metadata w filepath =
     (case stats w filepath of
        None \<Rightarrow> Inl FT_ERR_FILE_NOT_FOUND
      | Some st \<Rightarrow>
          if \<not> S_ISREG (st_mode st) then Inl FT_ERR_INVALID_ARG
          else Inr \<lparr> md_filename =
                       strncpy (basename_of filepath) (FT_MAX_FILENAME_LEN - 1) @ [NUL],
                     md_file_size = st_size st,
                     md_file_mode = st_mode st,
                     md_timestamp = st_mtime st \<rparr>)"

definition file_check_disk_space :: "world \<Rightarrow> string \<Rightarrow> u64 \<Rightarrow> FTErrorCode" where
  "file_check_disk_space w path required_bytes =
     (case disk_available w of
        None \<Rightarrow> FT_ERR_DISK_FULL
      | Some available \<Rightarrow>
          if available < required_bytes then FT_ERR_DISK_FULL else FT_SUCCESS)"

text \<open>
  \<open>file_sanitize_filename\<close>. \<open>filename\<close> is the C string passed in, \<open>size\<close> the size of
  the output array. \<open>strstr filename ".."\<close> is the search for a substring; \<open>filename[i]\<close>
  at the end of the string is the terminating NUL, and \<open>filename[1]\<close> of the empty
  string is read only beside \<open>filename[0] >= 'A'\<close>, which is false there. The \<open>char\<close>
  comparisons are between ASCII letters and digits, where signed and unsigned \<open>char\<close>
  agree. The result is the status and the sanitized string.
\<close>

fun strstr :: "string \<Rightarrow> string \<Rightarrow> bool" where
  "strstr [] needle \<longleftrightarrow> needle = []"
| "strstr (c # cs) needle \<longleftrightarrow> take (length needle) (c # cs) = needle \<or> strstr cs needle"

definition c_index :: "string \<Rightarrow> nat \<Rightarrow> char" where
  "c_index s i = (if i < length s then s ! i else NUL)"

definition name_char :: "char \<Rightarrow> bool" where
  "name_char c \<longleftrightarrow> (CHR ''a'' \<le> c \<and> c \<le> CHR ''z'') \<or> (CHR ''A'' \<le> c \<and> c \<le> CHR ''Z'') \<or>
     (CHR ''0'' \<le> c \<and> c \<le> CHR ''9'') \<or> c = CHR ''-'' \<or> c = CHR ''_'' \<or> c = CHR ''.''"

text \<open>
  The copying loop \<open>while (filename[i] != '\0' && j < size - 1)\<close>: \<open>room\<close> is
  \<open>size - 1 - j\<close>.
\<close>

fun sanitize_copy :: "string \<Rightarrow> nat \<Rightarrow> string" where
  "sanitize_copy [] room = []"
| "sanitize_copy (c # cs) room =
     (if room = 0 then []
      else if name_char c then c # sanitize_copy cs (room - 1)
      else if c = CHR ''/'' \<or> c = CHR 0x5C then CHR ''_'' # sanitize_copy cs (room - 1)
      else sanitize_copy cs room)"

definition file_sanitize_filename :: "string \<Rightarrow> nat \<Rightarrow> FTErrorCode \<times> string" where
  "file_sanitize_filename filename' size' =
     (if size' = 0 then (FT_ERR_INVALID_ARG, [])
      else if strstr filename' ''..'' then (FT_ERR_INVALID_ARG, [])
      else if c_index filename' 0 = CHR ''/'' \<or> c_index filename' 0 = CHR 0x5C \<or>
              (c_index filename' 1 = CHR '':'' \<and>
               (CHR ''A'' \<le> c_index filename' 0 \<and> c_index filename' 0 \<le> CHR ''Z''))
           then (FT_ERR_INVALID_ARG, [])
      else let sanitized = sanitize_copy filename' (size' - 1)
           in if length sanitized = 0 then (FT_ERR_INVALID_ARG, sanitized)
              else (FT_SUCCESS, sanitized))"

definition file_build_path :: "string \<Rightarrow> string \<Rightarrow> nat \<Rightarrow> string" where
  "file_build_path dir filename' size' =
     (let dir_len = length dir;
          has_separator = (dir_len > 0 \<and>
             (dir ! (dir_len - 1) = CHR ''/'' \<or> dir ! (dir_len - 1) = CHR 0x5C))
      in if has_separator then snprintf size' (dir @ filename')
         else snprintf size' (dir @ [PATH_SEPARATOR] @ filename'))"

text \<open>\<open>file_delete\<close>: \<open>remove\<close> fails on a path that does not exist.\<close>

definition file_delete :: "world \<Rightarrow> string \<Rightarrow> int \<times> world" where
  "file_delete w filepath =
     (if files w filepath = None then (-1, w)
      else (0, w\<lparr>files := (files w)(filepath := None)\<rparr>))"

section \<open>Transport (network.c)\<close>

text \<open>
  \<open>socket_send_all\<close> sends the whole buffer or fails; the connection takes
  \<open>send_budget\<close> more bytes and is lost then, which is the fatal \<open>FT_ERR_SEND\<close>.
  \<open>socket_recv_all\<close> reads exactly \<open>length\<close> bytes or fails; the peer closing the
  connection before that is \<open>FT_ERR_RECV\<close>. Timeouts (\<open>FT_ERR_TIMEOUT\<close>) are not modelled.
  A function that returns \<open>0\<close> or \<open>-1\<close> and stores an error code through \<open>error\<close> returns
  here \<open>Inr\<close> of its results or \<open>Inl\<close> of the error code, beside the environment.
\<close>

definition socket_send_all :: "world \<Rightarrow> u8 list \<Rightarrow> (FTErrorCode + unit) \<times> world" where
  "socket_send_all w buffer =
     (if length buffer \<le> send_budget w
      then (Inr (), w\<lparr>outbox := outbox w @ buffer,
                       send_budget := send_budget w - length buffer\<rparr>)
      else (Inl FT_ERR_SEND, w\<lparr>outbox := outbox w @ take (send_budget w) buffer,
                                send_budget := 0\<rparr>))"

definition socket_recv_all :: "world \<Rightarrow> nat \<Rightarrow> (FTErrorCode + u8 list) \<times> world" where
  "socket_recv_all w length' =
     (if length' \<le> length (inbox w)
      then (Inr (take length' (inbox w)), w\<lparr>inbox := drop length' (inbox w)\<rparr>)
      else (Inl FT_ERR_RECV, w\<lparr>inbox := []\<rparr>))"

text \<open>
  The local array \<open>name\<close> of \<open>n\<close> bytes into which \<open>received\<close> was read: the rest of it
  is uninitialised.
\<close>

definition local_buffer :: "world \<Rightarrow> string \<Rightarrow> nat \<Rightarrow> u8 list \<Rightarrow> u8 list" where
  "local_buffer w name n received = received @ drop (length received) (stack_buffer w name n)"

section \<open>Protocol engine (network.c)\<close>

text \<open>
  \<open>send_message\<close>: the header with \<open>payload_size\<close> the size of the payload, then the
  payload if there is one. \<open>payload\<close> is the \<open>payload_size\<close> bytes sent.
\<close>

definition send_message ::
  "world \<Rightarrow> u8 \<Rightarrow> u64 \<Rightarrow> u8 list \<Rightarrow> (FTErrorCode + unit) \<times> world" where
  "send_message w msg_type' sequence_num' payload =
     (let header = protocol_init_header msg_type' sequence_num' (of_nat (length payload));
          header_buf = protocol_serialize_header (little_endian w) header
                         (stack_buffer w ''header_buf'' FT_HEADER_SIZE)
      in case socket_send_all w header_buf of
           (Inl e, w1) \<Rightarrow> (Inl e, w1)
         | (Inr _, w1) \<Rightarrow>
             if length payload > 0 then socket_send_all w1 payload else (Inr (), w1))"

text \<open>
  \<open>recv_message\<close>: 32 header bytes, \<open>protocol_deserialize_header\<close>,
  \<open>protocol_validate_header\<close>, the bound \<open>max_payload_size\<close>, then \<open>payload_size\<close> bytes
  of payload. The result is the header and the payload bytes read.
\<close>

definition recv_message ::
  "world \<Rightarrow> nat \<Rightarrow> (FTErrorCode + MessageHeader \<times> u8 list) \<times> world" where
  "recv_message w max_payload_size =
     (case socket_recv_all w FT_HEADER_SIZE of
        (Inl e, w1) \<Rightarrow> (Inl e, w1)
      | (Inr header_buf, w1) \<Rightarrow>
          let header = protocol_deserialize_header (little_endian w1) header_buf;
              validation_result = protocol_validate_header header
          in if validation_result \<noteq> FT_SUCCESS then (Inl validation_result, w1)
             else if payload_size header > 0 then
               if unat (payload_size header) > max_payload_size
               then (Inl FT_ERR_PROTOCOL, w1)
               else (case socket_recv_all w1 (unat (payload_size header)) of
                       (Inl e, w2) \<Rightarrow> (Inl e, w2)
                     | (Inr payload, w2) \<Rightarrow> (Inr (header, payload), w2))
             else (Inr (header, []), w1))"

text \<open>
  The handshake payload is \<open>{protocol_version, capabilities = 0, reserved = 0}\<close>, four
  bytes.
\<close>

definition handshake_payload :: "u8 list" where
  "handshake_payload = [FT_PROTOCOL_VERSION, 0, 0, 0]"

definition perform_handshake_client :: "world \<Rightarrow> (FTErrorCode + unit) \<times> world" where
  "perform_handshake_client w =
     (case send_message w MSG_HANDSHAKE_REQ 0 handshake_payload of
        (Inl e, w1) \<Rightarrow> (Inl e, w1)
      | (Inr _, w1) \<Rightarrow>
          (case recv_message w1 4 of
             (Inl e, w2) \<Rightarrow> (Inl e, w2)
           | (Inr (header, received), w2) \<Rightarrow>
               let ack_payload = local_buffer w2 ''ack_payload'' 4 received
               in if msg_type header \<noteq> MSG_HANDSHAKE_ACK then (Inl FT_ERR_PROTOCOL, w2)
                  else if ack_payload ! 0 \<noteq> FT_PROTOCOL_VERSION then (Inl FT_ERR_VERSION, w2)
                  else (Inr (), w2)))"

definition perform_handshake_server :: "world \<Rightarrow> (FTErrorCode + unit) \<times> world" where
  "perform_handshake_server w =
     (case recv_message w 4 of
        (Inl e, w1) \<Rightarrow> (Inl e, w1)
      | (Inr (header, received), w1) \<Rightarrow>
          let payload = local_buffer w1 ''payload'' 4 received
          in if msg_type header \<noteq> MSG_HANDSHAKE_REQ then (Inl FT_ERR_PROTOCOL, w1)
             else if payload ! 0 \<noteq> FT_PROTOCOL_VERSION then (Inl FT_ERR_VERSION, w1)
             else send_message w1 MSG_HANDSHAKE_ACK (sequence_num header + 1)
                    handshake_payload)"

definition send_file_info ::
  "world \<Rightarrow> FileInfo \<Rightarrow> u64 \<Rightarrow> (FTErrorCode + unit) \<times> world" where
  "send_file_info w file_info sequence_num' =
     (let buffer = protocol_serialize_file_info (little_endian w) file_info
                     (stack_buffer w ''buffer'' FT_FILE_INFO_SIZE)
      in send_message w MSG_FILE_INFO sequence_num' buffer)"

definition recv_file_info :: "world \<Rightarrow> (FTErrorCode + FileInfo) \<times> world" where
  "recv_file_info w =
     (case recv_message w FT_FILE_INFO_SIZE of
        (Inl e, w1) \<Rightarrow> (Inl e, w1)
      | (Inr (header, received), w1) \<Rightarrow>
          let buffer = local_buffer w1 ''buffer'' FT_FILE_INFO_SIZE received
          in if msg_type header \<noteq> MSG_FILE_INFO then (Inl FT_ERR_PROTOCOL, w1)
             else (Inr (protocol_deserialize_file_info (little_endian w1) buffer), w1))"

text \<open>
  \<open>send_chunk\<close>: the message header with \<open>payload_size = 24 + data_size\<close>, the chunk
  header with the CRC-32 of the data, the data. \<open>data\<close> is the \<open>data_size\<close> bytes sent;
  \<open>chunk_size\<close> is \<open>(uint32_t)data_size\<close>.
\<close>

definition send_chunk ::
  "world \<Rightarrow> u64 \<Rightarrow> u64 \<Rightarrow> u8 list \<Rightarrow> u64 \<Rightarrow> (FTErrorCode + unit) \<times> world" where
  "send_chunk w chunk_id' chunk_offset' data sequence_num' =
     (let chunk_crc = crc32_compute data;
          chunk_hdr = \<lparr> chunk_id = chunk_id', chunk_offset = chunk_offset',
                        chunk_hdr_size = of_nat (length data), chunk_crc32 = chunk_crc \<rparr>;
          chunk_hdr_buf = protocol_serialize_chunk_header (little_endian w) chunk_hdr
                            (stack_buffer w ''chunk_hdr_buf'' FT_CHUNK_HEADER_SIZE);
          total_payload = FT_CHUNK_HEADER_SIZE + length data;
          msg_hdr = protocol_init_header MSG_CHUNK_DATA sequence_num' (of_nat total_payload);
          msg_hdr_buf = protocol_serialize_header (little_endian w) msg_hdr
                          (stack_buffer w ''msg_hdr_buf'' FT_HEADER_SIZE)
      in case socket_send_all w msg_hdr_buf of
           (Inl e, w1) \<Rightarrow> (Inl e, w1)
         | (Inr _, w1) \<Rightarrow>
             (case socket_send_all w1 chunk_hdr_buf of
                (Inl e, w2) \<Rightarrow> (Inl e, w2)
              | (Inr _, w2) \<Rightarrow> socket_send_all w2 data))"

text \<open>
  \<open>recv_chunk\<close>. On failure the result is the error code and the chunk header as far
  as \<open>*chunk_hdr\<close> was filled: \<open>None\<close> before \<open>protocol_deserialize_chunk_header\<close>, the
  header read after it. On success it is the chunk header and the data. The header's
  \<open>payload_size\<close> is not looked at.
\<close>

definition recv_chunk ::
  "world \<Rightarrow> nat \<Rightarrow> (FTErrorCode \<times> ChunkHeader option + ChunkHeader \<times> u8 list) \<times> world" where
  "recv_chunk w max_data_size =
     (case socket_recv_all w FT_HEADER_SIZE of
        (Inl e, w1) \<Rightarrow> (Inl (e, None), w1)
      | (Inr msg_hdr_buf, w1) \<Rightarrow>
          let msg_hdr = protocol_deserialize_header (little_endian w1) msg_hdr_buf
          in if protocol_validate_header msg_hdr \<noteq> FT_SUCCESS
             then (Inl (FT_ERR_PROTOCOL, None), w1)
             else if msg_type msg_hdr \<noteq> MSG_CHUNK_DATA
             then (Inl (FT_ERR_PROTOCOL, None), w1)
             else (case socket_recv_all w1 FT_CHUNK_HEADER_SIZE of
                     (Inl e, w2) \<Rightarrow> (Inl (e, None), w2)
                   | (Inr chunk_hdr_buf, w2) \<Rightarrow>
                       let chunk_hdr = protocol_deserialize_chunk_header (little_endian w2)
                                         chunk_hdr_buf
                       in if unat (chunk_hdr_size chunk_hdr) > max_data_size
                          then (Inl (FT_ERR_PROTOCOL, Some chunk_hdr), w2)
                          else (case socket_recv_all w2 (unat (chunk_hdr_size chunk_hdr)) of
                                  (Inl e, w3) \<Rightarrow> (Inl (e, Some chunk_hdr), w3)
                                | (Inr data, w3) \<Rightarrow>
                                    let computed_crc = crc32_compute data
                                    in if computed_crc \<noteq> chunk_crc32 chunk_hdr
                                       then (Inl (FT_ERR_CHECKSUM, Some chunk_hdr), w3)
                                       else (Inr (chunk_hdr, data), w3))))"

text \<open>
  \<open>send_chunk_ack\<close>: \<open>chunk_id\<close> in network byte order, the status byte and three zero
  bytes in a 16-byte buffer, of which \<open>sizeof(ack) = 12\<close> bytes are sent.
\<close>

definition chunk_ack_payload :: "world \<Rightarrow> u64 \<Rightarrow> u8 \<Rightarrow> u8 list" where
  "chunk_ack_payload w chunk_id' status' =
     (let buffer = stack_buffer w ''buffer'' 16;
          buffer = store64 (little_endian w) buffer (8 * 0) (htonll (little_endian w) chunk_id');
          buffer = store_bytes buffer 8 [status'];
          buffer = store_bytes buffer 9 (replicate 3 0)
      in take 12 buffer)"

definition send_chunk_ack ::
  "world \<Rightarrow> u64 \<Rightarrow> u8 \<Rightarrow> u64 \<Rightarrow> (FTErrorCode + unit) \<times> world" where
  "send_chunk_ack w chunk_id' status' sequence_num' =
     send_message w MSG_CHUNK_ACK sequence_num' (chunk_ack_payload w chunk_id' status')"

definition recv_chunk_ack :: "world \<Rightarrow> (FTErrorCode + ChunkAck) \<times> world" where
  "recv_chunk_ack w =
     (case recv_message w 16 of
        (Inl e, w1) \<Rightarrow> (Inl e, w1)
      | (Inr (header, received), w1) \<Rightarrow>
          let buffer = local_buffer w1 ''buffer'' 16 received
          in if msg_type header \<noteq> MSG_CHUNK_ACK then (Inl FT_ERR_PROTOCOL, w1)
             else (Inr \<lparr> ack_chunk_id = ntohll (little_endian w1)
                                            (load64 (little_endian w1) buffer (8 * 0)),
                          status = buffer ! 8 \<rparr>, w1))"

text \<open>
  \<open>send_error\<close>: \<open>(uint8_t)error_code\<close>, the chunk id in network byte order at offset 1
  and the message, cut to 246 characters and padded with NULs to 247, which is
  \<open>sizeof(err_msg) = 256\<close> bytes.
\<close>

definition error_payload :: "world \<Rightarrow> FTErrorCode \<Rightarrow> u64 \<Rightarrow> string \<Rightarrow> u8 list" where
  "error_payload w error_code chunk_id' message =
     (let err_message = strncpy message 246 @ [NUL];
          buffer = stack_buffer w ''buffer'' 256;
          buffer = store_bytes buffer 0 [word_of_int (error_value error_code)];
          buffer = store64 (little_endian w) buffer 1 (htonll (little_endian w) chunk_id');
          buffer = store_bytes buffer 9 (map byte_of_char err_message)
      in buffer)"

definition send_error ::
  "world \<Rightarrow> FTErrorCode \<Rightarrow> u64 \<Rightarrow> string \<Rightarrow> u64 \<Rightarrow> (FTErrorCode + unit) \<times> world" where
  "send_error w error_code chunk_id' message sequence_num' =
     send_message w MSG_ERROR sequence_num' (error_payload w error_code chunk_id' message)"

section \<open>Receiver (server_main.c)\<close>

text \<open>
  What the receiving loop needs to end: each pass that goes on has taken a chunk frame
  from the bytes the peer delivers, and nothing the receiver sends or writes touches
  them.
\<close>

lemma inbox_socket_send_all: "inbox (snd (socket_send_all w buffer)) = inbox w"
  by (simp add: socket_send_all_def)

lemma inbox_send_message: "inbox (snd (send_message w t s payload)) = inbox w"
proof -
  let ?hb = "protocol_serialize_header (little_endian w)
      (protocol_init_header t s (word_of_nat (length payload))) (stack_buffer w ''header_buf'' FT_HEADER_SIZE)"
  obtain r w1 where 1: "socket_send_all w ?hb = (r, w1)"
    by (cases "socket_send_all w ?hb")
  then have 2: "inbox w1 = inbox w"
    using inbox_socket_send_all [of w ?hb] by simp
  show ?thesis
  proof (cases r)
    case (Inl e)
    then show ?thesis
      using 1 2 by (simp add: send_message_def Let_def)
  next
    case (Inr u)
    then show ?thesis
      using 1 2 inbox_socket_send_all [of w1 payload] by (simp add: send_message_def Let_def)
  qed
qed

lemma inbox_send_chunk_ack: "inbox (snd (send_chunk_ack w c st s)) = inbox w"
  by (simp add: send_chunk_ack_def inbox_send_message)

lemma inbox_file_write_chunk: "inbox (snd (file_write_chunk w file off buffer)) = inbox w"
  by (simp add: file_write_chunk_def Let_def)

lemma socket_recv_all_Inr:
  "socket_recv_all w n = (Inr bs, w1) \<Longrightarrow>
     length (inbox w1) + n = length (inbox w) \<and> length bs = n \<and>
     little_endian w1 = little_endian w"
  by (auto simp: socket_recv_all_def split: if_splits)

lemma socket_recv_all_Inl: "socket_recv_all w n = (Inl e, w1) \<Longrightarrow> e = FT_ERR_RECV"
  by (auto simp: socket_recv_all_def split: if_splits)

lemma recv_chunk_consumes:
  assumes "recv_chunk w n = (r, w1)"
    and "(\<exists>c d. r = Inr (c, d)) \<or> (\<exists>h. r = Inl (FT_ERR_CHECKSUM, h))"
  shows "length (inbox w1) < length (inbox w)"
  using assms
  by (auto simp: recv_chunk_def Let_def FT_HEADER_SIZE_def
      split: prod.splits sum.splits if_splits dest!: socket_recv_all_Inr socket_recv_all_Inl)

text \<open>
  The loop \<open>while (received_chunks < file_info.total_chunks)\<close> of \<open>receive_file\<close>. The
  result is \<open>True\<close> when the loop ends by its condition and \<open>False\<close> on \<open>goto cleanup\<close>.
  \<open>chunk_hdr\<close> is filled by \<open>recv_chunk\<close>; after \<open>FT_ERR_CHECKSUM\<close> it always is (the case
  \<open>None\<close> there cannot arise). The counter \<open>received_bytes\<close> and the progress log are left
  out. The loop ends because the peer's bytes are finitely many in the model.
\<close>

function receive_chunks ::
  "world \<Rightarrow> FILE \<Rightarrow> FileInfo \<Rightarrow> u64 \<Rightarrow> u64 \<Rightarrow> bool \<times> world" where
  "receive_chunks w file file_info received_chunks sequence_num' =
     (if received_chunks < total_chunks file_info then
        (case recv_chunk w (unat (chunk_size file_info)) of
           (Inl (error, hdr), w1) \<Rightarrow>
             if error = FT_ERR_CHECKSUM then
               (case hdr of
                  Some chunk_hdr \<Rightarrow>
                    receive_chunks
                      (snd (send_chunk_ack w1 (chunk_id chunk_hdr) 1 sequence_num'))
                      file file_info received_chunks (sequence_num' + 1)
                | None \<Rightarrow> (False, w1))
             else (False, w1)
         | (Inr (chunk_hdr, chunk_buffer), w1) \<Rightarrow>
             (case file_write_chunk w1 file (chunk_offset chunk_hdr) chunk_buffer of
                (Inl error, w2) \<Rightarrow>
                  (False, snd (send_error w2 error (chunk_id chunk_hdr) ''Write failed''
                                 sequence_num'))
              | (Inr _, w2) \<Rightarrow>
                  (case send_chunk_ack w2 (chunk_id chunk_hdr) 0 sequence_num' of
                     (Inl error, w3) \<Rightarrow> (False, w3)
                   | (Inr _, w3) \<Rightarrow>
                       receive_chunks w3 file file_info (received_chunks + 1)
                         (sequence_num' + 1))))
      else (True, w))"
  by pat_completeness auto
termination
proof (relation "measure (\<lambda>(w, file, file_info, received_chunks, sequence_num'). length (inbox w))")
  show "wf (measure (\<lambda>(w, file, file_info, received_chunks, sequence_num'). length (inbox w)))"
    by simp
next
  fix w :: world and fl :: FILE and file_info :: FileInfo and received_chunks sequence_num' :: u64
    and x w1 e error hdr chunk_hdr
  assume "(x, w1) = recv_chunk w (unat (chunk_size file_info))" "x = Inl e" "(error, hdr) = e"
    "error = FT_ERR_CHECKSUM" "hdr = Some chunk_hdr"
  then have "length (inbox w1) < length (inbox w)"
    using recv_chunk_consumes [of w "unat (chunk_size file_info)" x w1] by auto
  then show "((snd (send_chunk_ack w1 (chunk_id chunk_hdr) 1 sequence_num'), fl, file_info,
        received_chunks, sequence_num' + 1), w, fl, file_info, received_chunks, sequence_num')
      \<in> measure (\<lambda>(w, file, file_info, received_chunks, sequence_num'). length (inbox w))"
    by (simp add: inbox_send_chunk_ack)
next
  fix w :: world and fl :: FILE and file_info :: FileInfo and received_chunks sequence_num' :: u64
    and x w1 y chunk_hdr chunk_buffer x' w2 u x'' w3 u'
  assume "(x, w1) = recv_chunk w (unat (chunk_size file_info))" "x = Inr y"
    "(chunk_hdr, chunk_buffer) = y"
    "(x', w2) = file_write_chunk w1 fl (chunk_offset chunk_hdr) chunk_buffer"
    "(x'', w3) = send_chunk_ack w2 (chunk_id chunk_hdr) 0 sequence_num'"
  then have "length (inbox w1) < length (inbox w)" "inbox w2 = inbox w1" "inbox w3 = inbox w2"
    using recv_chunk_consumes [of w "unat (chunk_size file_info)" x w1]
      inbox_file_write_chunk [of w1 fl "chunk_offset chunk_hdr" chunk_buffer]
      inbox_send_chunk_ack [of w2 "chunk_id chunk_hdr" 0 sequence_num']
    by (auto simp: snd_def split: prod.splits dest: sym)
  then show "((w3, fl, file_info, received_chunks + 1, sequence_num' + 1), w, fl, file_info,
        received_chunks, sequence_num')
      \<in> measure (\<lambda>(w, file, file_info, received_chunks, sequence_num'). length (inbox w))"
    by simp
qed

declare receive_chunks.simps [simp del]

text \<open>
  The label \<open>cleanup\<close> of \<open>receive_file\<close>: \<open>file\<close> is the variable of that name, \<open>None\<close>
  once the code has set it to \<open>NULL\<close>.
\<close>

definition receive_file_cleanup ::
  "world \<Rightarrow> FILE option \<Rightarrow> string \<Rightarrow> int \<Rightarrow> int \<times> world" where
  "receive_file_cleanup w file temp_path result =
     (case file of
        Some f \<Rightarrow> (if result \<noteq> 0 then (result, snd (file_delete w temp_path)) else (result, w))
      | None \<Rightarrow> (result, w))"

text \<open>
  \<open>receive_file\<close>. \<open>sequence_num\<close> starts at 2 and each use is \<open>sequence_num++\<close>: the
  errors before the file ack and the file ack itself carry 2, what follows starts at 3.
  \<open>sanitized_name\<close> has \<open>FT_MAX_FILENAME_LEN\<close> places, \<open>temp_path\<close> and \<open>final_path\<close> 1024.
\<close>

definition receive_file :: "world \<Rightarrow> string \<Rightarrow> int \<times> world" where
  "receive_file w output_dir =
     (case perform_handshake_server w of
        (Inl error, w1) \<Rightarrow> (-1, w1)
      | (Inr _, w1) \<Rightarrow>
     (case recv_file_info w1 of
        (Inl error, w2) \<Rightarrow> (-1, w2)
      | (Inr file_info, w2) \<Rightarrow>
     (case file_sanitize_filename (c_str (filename file_info)) FT_MAX_FILENAME_LEN of
        (sanitize_result, sanitized_name) \<Rightarrow>
     if sanitize_result \<noteq> FT_SUCCESS
     then (-1, snd (send_error w2 FT_ERR_INVALID_ARG 0 ''Invalid filename'' 2))
     else if file_check_disk_space w2 output_dir (file_size file_info) \<noteq> FT_SUCCESS
     then (-1, snd (send_error w2 FT_ERR_DISK_FULL 0 ''Insufficient disk space'' 2))
     else
     (case file_open_write w2 output_dir sanitized_name 1024 of
        (Inl error, w3) \<Rightarrow> (-1, snd (send_error w3 error 0 ''Cannot create file'' 2))
      | (Inr (file, temp_path), w3) \<Rightarrow>
     (case send_message w3 MSG_FILE_ACK 2 [0, 0, 0, 0] of
        (Inl error, w4) \<Rightarrow> receive_file_cleanup w4 (Some file) temp_path (-1)
      | (Inr _, w4) \<Rightarrow>
     if \<not> malloc_ok w4 (unat (chunk_size file_info))
     then receive_file_cleanup
            (snd (send_error w4 FT_ERR_OUT_OF_MEMORY 0 ''Out of memory'' 3))
            (Some file) temp_path (-1)
     else
     (case receive_chunks w4 file file_info 0 3 of
        (received, w5) \<Rightarrow>
          if \<not> received then receive_file_cleanup w5 (Some file) temp_path (-1)
          else
          let final_path = file_build_path output_dir sanitized_name 1024
          in (case file_finalize_write w5 temp_path final_path of
                (finalize_result, w6) \<Rightarrow>
                  if finalize_result \<noteq> FT_SUCCESS
                  then receive_file_cleanup w6 None temp_path (-1)
                  else receive_file_cleanup w6 None temp_path 0)))))))"

section \<open>Sender (client_main.c)\<close>

text \<open>
  The inner loop \<open>while (retry_count < FT_MAX_RETRIES)\<close> of \<open>send_file\<close> for one chunk.
  Every pass calls \<open>send_chunk\<close> with \<open>sequence_num++\<close>. The result is \<open>False\<close> on
  \<open>goto cleanup\<close> and \<open>True\<close> when the loop is left by \<open>break\<close> or by its condition, with
  the environment and the sequence number it leaves.
\<close>

function send_chunk_retry ::
  "world \<Rightarrow> u64 \<Rightarrow> u64 \<Rightarrow> u8 list \<Rightarrow> nat \<Rightarrow> u64 \<Rightarrow> bool \<times> world \<times> u64" where
  "send_chunk_retry w chunk_id' chunk_offset' chunk_buffer retry_count sequence_num' =
     (if retry_count < FT_MAX_RETRIES then
        (case send_chunk w chunk_id' chunk_offset' chunk_buffer sequence_num' of
           (Inl error, w1) \<Rightarrow>
             if retry_count + 1 \<ge> FT_MAX_RETRIES then (False, w1, sequence_num' + 1)
             else send_chunk_retry w1 chunk_id' chunk_offset' chunk_buffer (retry_count + 1)
                    (sequence_num' + 1)
         | (Inr _, w1) \<Rightarrow>
             (case recv_chunk_ack w1 of
                (Inl error, w2) \<Rightarrow>
                  if retry_count + 1 \<ge> FT_MAX_RETRIES then (False, w2, sequence_num' + 1)
                  else send_chunk_retry w2 chunk_id' chunk_offset' chunk_buffer
                         (retry_count + 1) (sequence_num' + 1)
              | (Inr ack, w2) \<Rightarrow>
                  if status ack \<noteq> 0 then
                    if retry_count + 1 \<ge> FT_MAX_RETRIES then (False, w2, sequence_num' + 1)
                    else send_chunk_retry w2 chunk_id' chunk_offset' chunk_buffer
                           (retry_count + 1) (sequence_num' + 1)
                  else (True, w2, sequence_num' + 1)))
      else (True, w, sequence_num'))"
  by pat_completeness auto
termination
  by (relation "measure (\<lambda>(w, c, off, b, retry_count, s). FT_MAX_RETRIES - retry_count)") auto

declare send_chunk_retry.simps [simp del]

text \<open>
  \<open>file_info.total_chunks = (metadata.file_size + file_info.chunk_size - 1) /
  file_info.chunk_size\<close>, in \<open>uint64_t\<close> arithmetic.
\<close>

definition compute_total_chunks :: "u64 \<Rightarrow> u32 \<Rightarrow> u64" where
  "compute_total_chunks file_size' chunk_size' =
     (file_size' + ucast chunk_size' - 1) div ucast chunk_size'"

lemma unat_succ_below:
  assumes "(c::u64) < t"
  shows "unat (c + 1) = unat c + 1"
proof -
  have "unat c < unat t"
    using assms by (simp add: word_less_nat_alt)
  moreover have "unat t < 2 ^ 64"
    using unsigned_less [of t, where 'a = nat] by simp
  ultimately have "unat c + unat (1::u64) < 2 ^ LENGTH(64)"
    by simp
  then show ?thesis
    by (simp add: unat_add_lem [THEN iffD1])
qed

lemma chunk_id_measure:
  assumes "(c::u64) < t"
  shows "unat (t - (c + 1)) < unat (t - c)"
proof -
  have 1: "unat c < unat t"
    using assms by (simp add: word_less_nat_alt)
  have 2: "unat (c + 1) = unat c + 1"
    using assms by (rule unat_succ_below)
  have "c + 1 \<le> t" "c \<le> t"
    using 1 2 by (simp_all add: word_le_nat_alt)
  then have "unat (t - (c + 1)) = unat t - unat (c + 1)" "unat (t - c) = unat t - unat c"
    by (simp_all add: unat_sub)
  then show ?thesis
    using 1 2 by simp
qed

text \<open>
  The loop \<open>for (chunk_id = 0; chunk_id < file_info.total_chunks; chunk_id++)\<close>:
  \<open>chunk_offset = chunk_id * chunk_size\<close>, \<open>bytes_to_read\<close> the chunk size or what is left
  of the file (a \<open>size_t\<close> of 64 bits), \<open>file_read_chunk\<close> of that many bytes, then the retry
  loop on the \<open>bytes_read\<close> bytes that came back. The counters and the progress log are
  left out.
\<close>

definition chunk_offset_at :: "FileInfo \<Rightarrow> u64 \<Rightarrow> u64" where
  "chunk_offset_at file_info chunk_id' = chunk_id' * ucast (chunk_size file_info)"

definition bytes_to_read_at :: "FileInfo \<Rightarrow> u64 \<Rightarrow> u64" where
  "bytes_to_read_at file_info chunk_id' =
     (if chunk_offset_at file_info chunk_id' + ucast (chunk_size file_info)
           > file_size file_info
      then file_size file_info - chunk_offset_at file_info chunk_id'
      else ucast (chunk_size file_info))"

function send_chunks :: "world \<Rightarrow> FILE \<Rightarrow> FileInfo \<Rightarrow> u64 \<Rightarrow> u64 \<Rightarrow> bool \<times> world" where
  "send_chunks w file file_info chunk_id' sequence_num' =
     (if chunk_id' < total_chunks file_info then
        let chunk_offset' = chunk_offset_at file_info chunk_id';
            bytes_to_read = bytes_to_read_at file_info chunk_id'
        in (case file_read_chunk w file chunk_offset' (unat bytes_to_read) of
              Inl error \<Rightarrow> (False, w)
            | Inr chunk_buffer \<Rightarrow>
                (case send_chunk_retry w chunk_id' chunk_offset' chunk_buffer 0 sequence_num' of
                   (sent, w1, sequence_num1) \<Rightarrow>
                     if \<not> sent then (False, w1)
                     else send_chunks w1 file file_info (chunk_id' + 1) sequence_num1))
      else (True, w))"
  by pat_completeness auto
termination
  by (relation "measure (\<lambda>(w, f, file_info, chunk_id', s). unat (total_chunks file_info - chunk_id'))")
     (auto simp: chunk_id_measure)

declare send_chunks.simps [simp del]

text \<open>
  The file info that \<open>send_file\<close> prepares from the metadata. \<open>file_info\<close> is zeroed by
  \<open>memset\<close> before its fields are set; the file name is the C string of the metadata,
  copied by \<open>strncpy\<close> into the first 255 places.
\<close>

definition prepare_file_info :: "FileMetadata \<Rightarrow> FileInfo" where
  "prepare_file_info metadata =
     \<lparr> filename_len = of_nat (length (c_str (md_filename metadata))),
       filename = strncpy (c_str (md_filename metadata)) (FT_MAX_FILENAME_LEN - 1) @ [NUL],
       file_size = md_file_size metadata,
       total_chunks = compute_total_chunks (md_file_size metadata) FT_DEFAULT_CHUNK_SIZE,
       chunk_size = FT_DEFAULT_CHUNK_SIZE,
       checksum_type = CHECKSUM_SHA256,
       file_checksum = replicate FT_SHA256_SIZE 0,
       file_mode = md_file_mode metadata,
       timestamp = md_timestamp metadata \<rparr>"

text \<open>
  \<open>send_file\<close>: metadata, \<open>file_open_read\<close>, the file info, the handshake, the file info
  at sequence number 2, one message in reply (\<open>MSG_FILE_ACK\<close> or failure), the chunk
  buffer, the chunks from sequence number 3 on.
\<close>

definition send_file :: "world \<Rightarrow> string \<Rightarrow> int \<times> world" where
  "send_file w filepath =
     (case file_get_metadata w filepath of
        Inl error \<Rightarrow> (-1, w)
      | Inr metadata \<Rightarrow>
     (case file_open_read w filepath of
        Inl error \<Rightarrow> (-1, w)
      | Inr file \<Rightarrow>
     let file_info = prepare_file_info metadata
     in
     (case perform_handshake_client w of
        (Inl error, w1) \<Rightarrow> (-1, w1)
      | (Inr _, w1) \<Rightarrow>
     (case send_file_info w1 file_info 2 of
        (Inl error, w2) \<Rightarrow> (-1, w2)
      | (Inr _, w2) \<Rightarrow>
     (case recv_message w2 16 of
        (Inl error, w3) \<Rightarrow> (-1, w3)
      | (Inr (header, ack_buf), w3) \<Rightarrow>
     if msg_type header = MSG_ERROR then (-1, w3)
     else if msg_type header \<noteq> MSG_FILE_ACK then (-1, w3)
     else if \<not> malloc_ok w3 (unat (chunk_size file_info)) then (-1, w3)
     else
     (case send_chunks w3 file file_info 0 3 of
        (sent, w4) \<Rightarrow> if sent then (0, w4) else (-1, w4)))))))"

section \<open>Byte order: lemmas\<close>

lemma length_le_bytes [simp]: "length (le_bytes k x) = k"
  by (simp add: le_bytes_def)

lemma nth_le_bytes: "i < k \<Longrightarrow> le_bytes k x ! i = ucast (drop_bit (8 * i) x)"
  by (simp add: le_bytes_def)

lemma bit_word_le:
  "bit (word_le bs :: 'a::len word) n \<longleftrightarrow>
     n < LENGTH('a) \<and> n div 8 < length bs \<and> bit (bs ! (n div 8)) (n mod 8)"
proof (induction bs arbitrary: n)
  case Nil
  then show ?case by simp
next
  case (Cons b bs)
  show ?case
  proof (cases "n < 8")
    case True
    then show ?thesis
      by (auto simp: bit_simps dest: bit_imp_le_length)
  next
    case False
    then have n: "n = 8 + (n - 8)" by simp
    have d: "n div 8 = Suc ((n - 8) div 8)" "n mod 8 = (n - 8) mod 8"
      using False by (simp_all add: le_div_geq le_mod_geq)
    have "\<not> bit b n"
      using False by (auto dest: bit_imp_le_length)
    then show ?thesis
      using False Cons.IH [of "n - 8"] by (auto simp: bit_simps d)
  qed
qed

lemma bit_byte_of:
  "bit (ucast (drop_bit (8 * i) (x::'a::len word)) :: u8) n \<longleftrightarrow> n < 8 \<and> bit x (8 * i + n)"
  by (auto simp: bit_simps)

lemma word_le_bytes:
  "LENGTH('a) \<le> 8 * k \<Longrightarrow> word_le (le_bytes k x) = (x::'a::len word)"
proof (rule bit_word_eqI)
  fix n assume k: "LENGTH('a) \<le> 8 * k" and n: "n < LENGTH('a)"
  then have "n div 8 < k" by auto
  then show "bit (word_le (le_bytes k x) :: 'a word) n = bit x n"
    using n by (simp add: bit_word_le nth_le_bytes bit_byte_of)
qed

lemma le_bytes_word:
  assumes "length bs = k" "8 * k \<le> LENGTH('a)"
  shows "le_bytes k (word_le bs :: 'a::len word) = bs"
proof (rule nth_equalityI)
  show "length (le_bytes k (word_le bs :: 'a word)) = length bs"
    using assms by simp
next
  fix i assume "i < length (le_bytes k (word_le bs :: 'a word))"
  then have i: "i < k" by simp
  have "ucast (drop_bit (8 * i) (word_le bs :: 'a word)) = bs ! i"
  proof (rule bit_word_eqI)
    fix n assume "n < LENGTH(8)"
    then have n: "n < 8" by simp
    then have "8 * i + n < 8 * k" using i by simp
    then have "8 * i + n < LENGTH('a)" using assms by simp
    then show "bit (ucast (drop_bit (8 * i) (word_le bs :: 'a word)) :: u8) n = bit (bs ! i) n"
      using n i assms by (simp add: bit_byte_of bit_word_le)
  qed
  then show "le_bytes k (word_le bs :: 'a word) ! i = bs ! i"
    using i by (simp add: nth_le_bytes)
qed

lemma length_be_bytes [simp]: "length (be_bytes k x) = k"
  by (simp add: be_bytes_def)

lemma length_host_bytes [simp]: "length (host_bytes le k x) = k"
  by (simp add: host_bytes_def)

lemma word_be_bytes: "LENGTH('a) \<le> 8 * k \<Longrightarrow> word_be (be_bytes k x) = (x::'a::len word)"
  by (simp add: word_be_def be_bytes_def word_le_bytes)

lemma be_bytes_word:
  "length bs = k \<Longrightarrow> 8 * k \<le> LENGTH('a) \<Longrightarrow> be_bytes k (word_be bs :: 'a::len word) = bs"
  by (simp add: word_be_def be_bytes_def le_bytes_word)

text \<open>The bits of a byte-swapped word.\<close>

lemma bit_swapped:
  "bit (word_le (rev (le_bytes k (x::'a::len word))) :: 'b::len word) n \<longleftrightarrow>
     n < LENGTH('b) \<and> n div 8 < k \<and> bit x (8 * (k - 1 - n div 8) + n mod 8)"
proof (cases "n div 8 < k")
  case True
  then have "rev (le_bytes k x) ! (n div 8) = le_bytes k x ! (k - 1 - n div 8)"
    by (simp add: rev_nth)
  moreover have "k - 1 - n div 8 < k" using True by simp
  ultimately show ?thesis
    using True by (simp add: bit_word_le nth_le_bytes bit_byte_of)
next
  case False
  then show ?thesis by (simp add: bit_word_le)
qed

lemma host_bytes_htons: "host_bytes le 2 (htons le x) = be_bytes 2 x"
  by (simp add: host_bytes_def htons_def host_word_def le_bytes_word be_bytes_word)

lemma host_bytes_htonl: "host_bytes le 4 (htonl le x) = be_bytes 4 x"
  by (simp add: host_bytes_def htonl_def host_word_def le_bytes_word be_bytes_word)

lemma ntohs_host_word: "length bs = 2 \<Longrightarrow> ntohs le (host_word le bs) = word_be bs"
  by (simp add: host_bytes_def ntohs_def host_word_def le_bytes_word be_bytes_word)

lemma ntohl_host_word: "length bs = 4 \<Longrightarrow> ntohl le (host_word le bs) = word_be bs"
  by (simp add: host_bytes_def ntohl_def host_word_def le_bytes_word be_bytes_word)

lemma htonl_big: "htonl False x = x"
  by (simp add: htonl_def host_word_def word_be_bytes)

lemma ntohl_big: "ntohl False x = x"
  by (simp add: ntohl_def host_bytes_def word_be_bytes)

lemma ntohl_eq_htonl: "ntohl le x = htonl le x"
  by (simp add: ntohl_def htonl_def host_bytes_def host_word_def word_be_def be_bytes_def
      word_le_bytes)

lemma htonl_little_1: "htonl True 1 \<noteq> 1"
proof
  assume "htonl True 1 = 1"
  then have "bit (htonl True 1) 24 = bit (1::u32) 24" by simp
  then show False
    by (simp add: htonl_def host_word_def be_bytes_def bit_swapped)
qed

lemma low_half: "(ucast ((x::u64) AND 0xFFFFFFFF) :: u32) = ucast x"
proof -
  have m: "(0xFFFFFFFF::u64) = mask 32" by (simp add: mask_eq_exp_minus_1)
  show ?thesis
    unfolding m by (rule bit_word_eqI) (auto simp: bit_simps)
qed

lemma bit_htonl_little:
  "bit (htonl True y) m \<longleftrightarrow> m < 32 \<and> bit y (8 * (3 - m div 8) + m mod 8)"
proof (cases "m < 32")
  case True
  then have "m div 8 < 4" by simp
  then show ?thesis
    using True by (simp add: htonl_def host_word_def be_bytes_def bit_swapped)
next
  case False
  then show ?thesis
    by (auto dest: bit_imp_le_length)
qed

lemma htonll_little_unfold:
  "htonll True x = push_bit 32 (ucast (htonl True (ucast x))) OR
     ucast (htonl True (ucast (drop_bit 32 x)))"
  using htonl_little_1 by (simp add: htonll_def low_half)

lemma bit_htonll_little:
  assumes "n < 64"
  shows "bit (htonll True x) n = bit x (8 * (7 - n div 8) + n mod 8)"
proof (cases "n < 32")
  case True
  then have d: "n div 8 < 4" by simp
  then have j: "8 * (3 - n div 8) + n mod 8 < 32" by simp
  have e: "32 + (8 * (3 - n div 8) + n mod 8) = 8 * (7 - n div 8) + n mod 8"
    using d by simp
  have "bit (htonll True x) n = bit (htonl True (ucast (drop_bit 32 x))) n"
    using True by (simp add: htonll_little_unfold bit_or_iff bit_push_bit_iff bit_ucast_iff)
  also have "\<dots> = bit (ucast (drop_bit 32 x) :: u32) (8 * (3 - n div 8) + n mod 8)"
    using True by (simp only: bit_htonl_little simp_thms)
  also have "\<dots> = bit x (32 + (8 * (3 - n div 8) + n mod 8))"
    using j by (simp add: bit_ucast_iff bit_drop_bit_eq)
  finally show ?thesis
    by (simp only: e)
next
  case False
  then obtain k where k: "n = k + 32"
    by (metis add.commute le_Suc_ex not_less)
  have k32: "k < 32"
    using assms k by simp
  then have d: "k div 8 < 4" by simp
  have a: "(k + 32) div 8 = k div 8 + 4" "(k + 32) mod 8 = k mod 8"
    using div_mult_self2 [of 8 k 4] mod_mult_self2 [of k 8 4] by simp_all
  have e: "8 * (7 - (k div 8 + 4)) + k mod 8 = 8 * (3 - k div 8) + k mod 8"
    by simp
  have j: "8 * (3 - k div 8) + k mod 8 < 32"
    using d by simp
  have "bit (htonll True x) (k + 32) = bit (ucast x :: u32) (8 * (3 - k div 8) + k mod 8)"
    using k32
    by (simp add: htonll_little_unfold bit_or_iff bit_push_bit_iff bit_ucast_iff
        bit_htonl_little)
  also have "\<dots> = bit x (8 * (3 - k div 8) + k mod 8)"
    using j by (simp add: bit_ucast_iff)
  finally show ?thesis
    by (simp only: k a e)
qed

lemma htonll_little: "htonll True x = word_le (rev (le_bytes 8 x))"
proof (rule bit_word_eqI)
  fix n assume "n < LENGTH(64)"
  then have n: "n < 64" by simp
  then have d8: "n div 8 < 8" by simp
  have R: "bit (word_le (rev (le_bytes 8 x)) :: u64) n = bit x (8 * (7 - n div 8) + n mod 8)"
    using n d8 by (simp add: bit_swapped)
  show "bit (htonll True x) n = bit (word_le (rev (le_bytes 8 x)) :: u64) n"
    by (simp only: bit_htonll_little [OF n] R)
qed

lemma ntohll_eq_htonll: "ntohll le x = htonll le x"
  by (simp add: ntohll_def htonll_def ntohl_eq_htonl)

lemma htonll_big: "htonll False x = x"
  by (simp add: htonll_def htonl_big)

lemma host_bytes_htonll: "host_bytes le 8 (htonll le x) = be_bytes 8 x"
  by (cases le) (simp_all add: host_bytes_def htonll_little htonll_big le_bytes_word be_bytes_def)

lemma ntohll_host_word:
  assumes "length bs = 8"
  shows "ntohll le (host_word le bs) = word_be bs"
proof (cases le)
  case True
  then show ?thesis
    using assms
    by (simp add: ntohll_eq_htonll htonll_little host_word_def word_be_def le_bytes_word)
next
  case False
  then show ?thesis
    by (simp add: ntohll_eq_htonll htonll_big host_word_def)
qed

section \<open>Header codec: the wire image\<close>

text \<open>
  The 32 bytes \<open>protocol_serialize_header\<close> leaves in the buffer, written out: the first
  24 bytes, their CRC-32 and the reserved word, all in network byte order.
\<close>

definition header_prefix :: "MessageHeader \<Rightarrow> u8 list" where
  "header_prefix h = be_bytes 4 (magic h) @ [version h, msg_type h] @ be_bytes 2 (flags h) @
     be_bytes 8 (sequence_num h) @ be_bytes 8 (payload_size h)"

definition header_wire :: "MessageHeader \<Rightarrow> u8 list" where
  "header_wire h = header_prefix h @ be_bytes 4 (crc32_compute (header_prefix h)) @
     be_bytes 4 (reserved h)"

lemma length_header_prefix [simp]: "length (header_prefix h) = 24"
  by (simp add: header_prefix_def)

lemma length_header_wire [simp]: "length (header_wire h) = 32"
  by (simp add: header_wire_def)

lemma store16_htons: "store16 le buffer off (htons le x) = store_bytes buffer off (be_bytes 2 x)"
  by (simp add: store16_def host_bytes_htons)

lemma store32_htonl: "store32 le buffer off (htonl le x) = store_bytes buffer off (be_bytes 4 x)"
  by (simp add: store32_def host_bytes_htonl)

lemma store64_htonll: "store64 le buffer off (htonll le x) = store_bytes buffer off (be_bytes 8 x)"
  by (simp add: store64_def host_bytes_htonll)

lemma ntohs_load16: "ntohs le (load16 le buffer off) = word_be (load_bytes buffer off 2)"
  if "off + 2 \<le> length buffer"
  using that by (simp add: load16_def load_bytes_def ntohs_host_word)

lemma ntohl_load32: "ntohl le (load32 le buffer off) = word_be (load_bytes buffer off 4)"
  if "off + 4 \<le> length buffer"
  using that by (simp add: load32_def load_bytes_def ntohl_host_word)

lemma ntohll_load64: "ntohll le (load64 le buffer off) = word_be (load_bytes buffer off 8)"
  if "off + 8 \<le> length buffer"
  using that by (simp add: load64_def load_bytes_def ntohll_host_word)

lemma store_bytes_append:
  "length pre = off \<Longrightarrow> store_bytes (pre @ rest) off bs = pre @ bs @ drop (length bs) rest"
  by (simp add: store_bytes_def)

lemma serialize_header_wire:
  assumes "length buffer = 32"
  shows "protocol_serialize_header le h buffer = header_wire h"
proof -
  let ?m = "be_bytes 4 (magic h)"
  let ?f = "be_bytes 2 (flags h)"
  let ?s = "be_bytes 8 (sequence_num h)"
  let ?p = "be_bytes 8 (payload_size h)"
  define b1 where "b1 = store32 le buffer (4 * 0) (htonl le (magic h))"
  define b2 where "b2 = store_bytes b1 4 [version h]"
  define b3 where "b3 = store_bytes b2 5 [msg_type h]"
  define b4 where "b4 = store16 le b3 (2 * 3) (htons le (flags h))"
  define b5 where "b5 = store64 le b4 (8 * 1) (htonll le (sequence_num h))"
  define b6 where "b6 = store64 le b5 (8 * 2) (htonll le (payload_size h))"
  define b7 where "b7 = store32 le b6 (4 * 6) (htonl le (crc32_compute (take 24 b6)))"
  define b8 where "b8 = store32 le b7 (4 * 7) (htonl le (reserved h))"
  have 1: "b1 = ?m @ drop 4 buffer"
    using store_bytes_append [of "[]" 0 buffer ?m] by (simp add: b1_def store32_htonl)
  have 2: "b2 = (?m @ [version h]) @ drop 5 buffer"
    using store_bytes_append [of ?m 4 "drop 4 buffer" "[version h]"] by (simp add: b2_def 1)
  have 3: "b3 = (?m @ [version h, msg_type h]) @ drop 6 buffer"
    using store_bytes_append [of "?m @ [version h]" 5 "drop 5 buffer" "[msg_type h]"]
    by (simp add: b3_def 2)
  have 4: "b4 = (?m @ [version h, msg_type h] @ ?f) @ drop 8 buffer"
    using store_bytes_append [of "?m @ [version h, msg_type h]" 6 "drop 6 buffer" ?f]
    by (simp add: b4_def 3 store16_htons)
  have 5: "b5 = (?m @ [version h, msg_type h] @ ?f @ ?s) @ drop 16 buffer"
    using store_bytes_append [of "?m @ [version h, msg_type h] @ ?f" 8 "drop 8 buffer" ?s]
    by (simp add: b5_def 4 store64_htonll)
  have 6: "b6 = header_prefix h @ drop 24 buffer"
    using store_bytes_append [of "?m @ [version h, msg_type h] @ ?f @ ?s" 16 "drop 16 buffer" ?p]
    by (simp add: b6_def 5 store64_htonll header_prefix_def)
  have c: "take 24 b6 = header_prefix h"
    by (simp add: 6)
  let ?c = "be_bytes 4 (crc32_compute (header_prefix h))"
  have 7: "b7 = (header_prefix h @ ?c) @ drop 28 buffer"
    using store_bytes_append [of "header_prefix h" 24 "drop 24 buffer" ?c]
    by (simp add: b7_def c 6 store32_htonl)
  have 8: "b8 = header_wire h"
    using store_bytes_append [of "header_prefix h @ ?c" 28 "drop 28 buffer" "be_bytes 4 (reserved h)"]
      assms
    by (simp add: b8_def 7 store32_htonl header_wire_def)
  have "protocol_serialize_header le h buffer = b8"
    by (simp only: protocol_serialize_header_def Let_def b1_def b2_def b3_def b4_def b5_def
        b6_def b7_def b8_def)
  then show ?thesis
    by (simp only: 8)
qed

lemma load_bytes_append:
  "length pre = off \<Longrightarrow> length bs = n \<Longrightarrow> load_bytes (pre @ bs @ rest) off n = bs"
  by (simp add: load_bytes_def)

lemma deserialize_header_wire:
  "protocol_deserialize_header le (header_wire h) = h\<lparr>checksum := crc32_compute (header_prefix h)\<rparr>"
proof -
  let ?m = "be_bytes 4 (magic h)"
  let ?f = "be_bytes 2 (flags h)"
  let ?s = "be_bytes 8 (sequence_num h)"
  let ?p = "be_bytes 8 (payload_size h)"
  let ?c = "be_bytes 4 (crc32_compute (header_prefix h))"
  let ?r = "be_bytes 4 (reserved h)"
  let ?B = "header_wire h"
  have B: "?B = ?m @ [version h, msg_type h] @ ?f @ ?s @ ?p @ ?c @ ?r"
    by (simp add: header_wire_def header_prefix_def)
  have m: "load_bytes ?B (4 * 0) 4 = ?m"
    using load_bytes_append [of "[]" 0 ?m 4] by (simp add: B)
  have v: "?B ! 4 = version h" "?B ! 5 = msg_type h"
    by (simp_all add: B nth_append)
  have f: "load_bytes ?B (2 * 3) 2 = ?f"
    using load_bytes_append [of "?m @ [version h, msg_type h]" 6 ?f 2 "?s @ ?p @ ?c @ ?r"]
    by (simp add: B)
  have s: "load_bytes ?B (8 * 1) 8 = ?s"
    using load_bytes_append [of "?m @ [version h, msg_type h] @ ?f" 8 ?s 8 "?p @ ?c @ ?r"]
    by (simp add: B)
  have p: "load_bytes ?B (8 * 2) 8 = ?p"
    using load_bytes_append [of "?m @ [version h, msg_type h] @ ?f @ ?s" 16 ?p 8 "?c @ ?r"]
    by (simp add: B)
  have c: "load_bytes ?B (4 * 6) 4 = ?c"
    using load_bytes_append [of "?m @ [version h, msg_type h] @ ?f @ ?s @ ?p" 24 ?c 4 ?r]
    by (simp add: B)
  have r: "load_bytes ?B (4 * 7) 4 = ?r"
    using load_bytes_append [of "?m @ [version h, msg_type h] @ ?f @ ?s @ ?p @ ?c" 28 ?r 4 "[]"]
    by (simp add: B)
  have "protocol_deserialize_header le ?B =
      \<lparr> magic = word_be (load_bytes ?B (4 * 0) 4), version = ?B ! 4, msg_type = ?B ! 5,
        flags = word_be (load_bytes ?B (2 * 3) 2),
        sequence_num = word_be (load_bytes ?B (8 * 1) 8),
        payload_size = word_be (load_bytes ?B (8 * 2) 8),
        checksum = word_be (load_bytes ?B (4 * 6) 4),
        reserved = word_be (load_bytes ?B (4 * 7) 4) \<rparr>"
    by (simp add: protocol_deserialize_header_def ntohs_load16 ntohl_load32 ntohll_load64)
  then show ?thesis
    by (simp only: m v f s p c r) (simp add: word_be_bytes)
qed

lemma u8_between_1_9:
  "(1 \<le> (t::u8) \<and> t \<le> 9) \<longleftrightarrow> t \<in> {1, 2, 3, 4, 5, 6, 7, 8, 9}"
proof
  assume "1 \<le> t \<and> t \<le> 9"
  then have "1 \<le> unat t" "unat t \<le> 9"
    by (simp_all add: word_le_nat_alt)
  then have "unat t \<in> {1, 2, 3, 4, 5, 6, 7, 8, 9}"
    by auto
  then have "word_of_nat (unat t) \<in> (word_of_nat ` {1, 2, 3, 4, 5, 6, 7, 8, 9} :: u8 set)"
    by (rule imageI)
  then show "t \<in> {1, 2, 3, 4, 5, 6, 7, 8, 9}"
    by simp
next
  assume "t \<in> {1, 2, 3, 4, 5, 6, 7, 8, 9}"
  then show "1 \<le> t \<and> t \<le> 9"
    by auto
qed

lemma validate_type_check:
  "\<not> (t < MSG_HANDSHAKE_REQ \<or> (t > MSG_VERIFY_RESPONSE \<and> t \<noteq> MSG_ERROR)) \<longleftrightarrow> declared_msg_type t"
proof -
  have "\<not> (t < 1 \<or> (t > 9 \<and> t \<noteq> 0xFF)) \<longleftrightarrow> (1 \<le> t \<and> t \<le> 9) \<or> t = 0xFF"
    by (auto simp: not_less word_le_nat_alt Suc_le_eq unat_gt_0)
  then show ?thesis
    unfolding msg_defs declared_msg_type_def u8_between_1_9 by auto
qed

text \<open>Concrete check values of the CRC-32, computed by rewriting.\<close>

lemmas crc32_eval = crc32_compute_def crc32_byte_def crc32_shift_def

lemma upt_2: "[0..<2] = [0, 1::nat]"
  by code_simp

lemma upt_4: "[0..<4] = [0, 1, 2, 3::nat]"
  by code_simp

lemma upt_8: "[0..<8] = [0, 1, 2, 3, 4, 5, 6, 7::nat]"
  by code_simp

lemma be_bytes_2: "be_bytes 2 x = [ucast (drop_bit 8 x), ucast x]"
  by (simp add: be_bytes_def le_bytes_def upt_2)

lemma be_bytes_4:
  "be_bytes 4 x = [ucast (drop_bit 24 x), ucast (drop_bit 16 x), ucast (drop_bit 8 x), ucast x]"
  by (simp add: be_bytes_def le_bytes_def upt_4)

lemma be_bytes_8:
  "be_bytes 8 x = [ucast (drop_bit 56 x), ucast (drop_bit 48 x), ucast (drop_bit 40 x),
     ucast (drop_bit 32 x), ucast (drop_bit 24 x), ucast (drop_bit 16 x),
     ucast (drop_bit 8 x), ucast x]"
  by (simp add: be_bytes_def le_bytes_def upt_8)

lemmas bytes_eval = be_bytes_2 be_bytes_4 be_bytes_8

lemma crc32_check_value:
  "crc32_compute [0x31, 0x32, 0x33, 0x34, 0x35, 0x36, 0x37, 0x38, 0x39] = 0xCBF43926"
  by (simp add: crc32_eval)

lemma crc_handshake_req:
  "crc32_compute (header_prefix (protocol_init_header MSG_HANDSHAKE_REQ 0 4)) = 0xC81FF2B7"
  by (simp add: header_prefix_def protocol_init_header_def FT_MAGIC_NUMBER_def
      FT_PROTOCOL_VERSION_def MSG_HANDSHAKE_REQ_def bytes_eval crc32_eval)
section \<open>Strings: lemmas\<close>

lemma c_str_length_le:
  assumes "n < length cs" "cs ! n = NUL"
  shows "length (c_str cs) \<le> n"
proof (rule ccontr)
  assume "\<not> length (c_str cs) \<le> n"
  then have "n < length (takeWhile (\<lambda>c. c \<noteq> NUL) cs)"
    by (simp add: c_str_def)
  then have "takeWhile (\<lambda>c. c \<noteq> NUL) cs ! n \<noteq> NUL"
    using nth_mem set_takeWhileD by fastforce
  moreover have "takeWhile (\<lambda>c. c \<noteq> NUL) cs ! n = cs ! n"
    using \<open>n < length (takeWhile (\<lambda>c. c \<noteq> NUL) cs)\<close> by (rule takeWhile_nth)
  ultimately show False
    using assms by simp
qed

lemma c_str_no_NUL: "NUL \<notin> set (c_str cs)"
  by (auto simp: c_str_def dest: set_takeWhileD)

section \<open>File names: lemmas\<close>

lemma strstr_iff: "strstr hay needle \<longleftrightarrow> (\<exists>xs ys. hay = xs @ needle @ ys)"
proof (induction hay)
  case Nil
  then show ?case by auto
next
  case (Cons c cs)
  show ?case
  proof
    assume "strstr (c # cs) needle"
    then consider "take (length needle) (c # cs) = needle" | "strstr cs needle"
      by auto
    then show "\<exists>xs ys. c # cs = xs @ needle @ ys"
    proof cases
      case 1
      then have "c # cs = [] @ needle @ drop (length needle) (c # cs)"
        by (metis append_Nil append_take_drop_id)
      then show ?thesis by blast
    next
      case 2
      then obtain xs ys where "cs = xs @ needle @ ys"
        using Cons.IH by blast
      then have "c # cs = (c # xs) @ needle @ ys"
        by simp
      then show ?thesis by blast
    qed
  next
    assume "\<exists>xs ys. c # cs = xs @ needle @ ys"
    then obtain xs ys where eq: "c # cs = xs @ needle @ ys"
      by blast
    show "strstr (c # cs) needle"
    proof (cases xs)
      case Nil
      then have "take (length needle) (c # cs) = needle"
        using eq by simp
      then show ?thesis by simp
    next
      case (Cons x xs')
      then have "cs = xs' @ needle @ ys"
        using eq by simp
      then have "strstr cs needle"
        using Cons.IH by blast
      then show ?thesis by simp
    qed
  qed
qed

lemma sanitize_rejects:
  assumes "(\<exists>xs ys. name = xs @ ''..'' @ ys) \<or> (\<exists>rest. name = CHR ''/'' # rest) \<or>
    (\<exists>rest. name = CHR 0x5C # rest) \<or>
    (\<exists>d rest. name = d # CHR '':'' # rest \<and> CHR ''A'' \<le> d \<and> d \<le> CHR ''Z'')"
  shows "fst (file_sanitize_filename name n) = FT_ERR_INVALID_ARG"
  using assms
  by (auto simp: file_sanitize_filename_def strstr_iff c_index_def Let_def)

lemma lowercase_drive_accepted:
  "file_sanitize_filename ''c:boot.ini'' 256 = (FT_SUCCESS, ''cboot.ini'')"
  by (simp add: file_sanitize_filename_def c_index_def name_char_def NUL_def)

lemma lowercase_drive_passes:
  assumes d: "CHR ''a'' \<le> d" "d \<le> CHR ''z''"
    and dots: "\<not> (\<exists>xs ys. rest = xs @ ''..'' @ ys)"
    and sz: "2 \<le> sz"
  shows "file_sanitize_filename (d # CHR '':'' # rest) sz =
    (FT_SUCCESS, d # sanitize_copy (CHR '':'' # rest) (sz - 2))"
proof -
  have 1: "\<not> strstr (d # CHR '':'' # rest) ''..''"
    using dots by (simp add: strstr_iff [of rest])
  have 2: "d \<noteq> CHR ''/''" "d \<noteq> CHR 0x5C" "\<not> d \<le> CHR ''Z''"
    using d(1) by (auto simp: less_eq_char_def)
  have 3: "name_char d"
    using d by (simp add: name_char_def)
  have 4: "sz - 1 \<noteq> 0" "sz \<noteq> 0" "sz - 1 - 1 = sz - 2"
    using sz by simp_all
  show ?thesis
    using 1 2 3 4 by (simp add: file_sanitize_filename_def c_index_def Let_def)
qed

section \<open>Frames on the wire: lemmas\<close>

text \<open>
  What \<open>send_message\<close> puts on the wire for a payload: the header's wire image and the
  payload.
\<close>

definition frame :: "u8 \<Rightarrow> u64 \<Rightarrow> u8 list \<Rightarrow> u8 list" where
  "frame t s payload = header_wire (protocol_init_header t s (of_nat (length payload))) @ payload"

lemma validate_ignores_checksum:
  "protocol_validate_header (h\<lparr>checksum := c\<rparr>) = protocol_validate_header h"
  by (simp add: protocol_validate_header_def)

lemma validate_init_header:
  "declared_msg_type t \<Longrightarrow> protocol_validate_header (protocol_init_header t s n) = FT_SUCCESS"
  using validate_type_check [of t]
  by (simp add: protocol_validate_header_def protocol_init_header_def)

lemma socket_recv_all_append:
  "inbox w = bs @ rest \<Longrightarrow> length bs = n \<Longrightarrow>
     socket_recv_all w n = (Inr bs, w\<lparr>inbox := rest\<rparr>)"
  by (simp add: socket_recv_all_def)

lemma socket_send_all_ok:
  "length buffer \<le> send_budget w \<Longrightarrow>
     socket_send_all w buffer =
       (Inr (), w\<lparr>outbox := outbox w @ buffer, send_budget := send_budget w - length buffer\<rparr>)"
  by (simp add: socket_send_all_def)

lemma recv_message_frame:
  assumes inbox: "inbox w = header_wire h @ payload @ rest"
    and valid: "protocol_validate_header h = FT_SUCCESS"
    and size: "unat (payload_size h) = length payload"
    and bound: "length payload \<le> max_payload"
  shows "recv_message w max_payload =
    (Inr (h\<lparr>checksum := crc32_compute (header_prefix h)\<rparr>, payload), w\<lparr>inbox := rest\<rparr>)"
proof -
  let ?w1 = "w\<lparr>inbox := payload @ rest\<rparr>"
  let ?h = "h\<lparr>checksum := crc32_compute (header_prefix h)\<rparr>"
  have 1: "socket_recv_all w FT_HEADER_SIZE = (Inr (header_wire h), ?w1)"
    using inbox by (simp add: socket_recv_all_append FT_HEADER_SIZE_def)
  have 2: "protocol_deserialize_header (little_endian ?w1) (header_wire h) = ?h"
    by (rule deserialize_header_wire)
  have 3: "protocol_validate_header ?h = FT_SUCCESS"
    using valid by (simp add: validate_ignores_checksum)
  have 4: "payload_size ?h = payload_size h"
    by simp
  show ?thesis
  proof (cases "payload = []")
    case True
    then have "payload_size h = 0"
      using size by (simp add: unat_eq_0)
    then show ?thesis
      using True valid
      by (simp add: recv_message_def 1 deserialize_header_wire validate_ignores_checksum Let_def)
  next
    case False
    then have pos: "payload_size h > 0"
      using size by (metis length_greater_0_conv unat_gt_0 word_gt_0)
    have 5: "socket_recv_all ?w1 (length payload) = (Inr payload, ?w1\<lparr>inbox := rest\<rparr>)"
      by (simp add: socket_recv_all_append)
    show ?thesis
      using pos size bound valid
      by (simp add: recv_message_def 1 5 deserialize_header_wire validate_ignores_checksum
          Let_def)
  qed
qed

lemma send_message_ok:
  assumes "FT_HEADER_SIZE + length payload \<le> send_budget w"
  shows "send_message w t s payload =
    (Inr (), w\<lparr>outbox := outbox w @ frame t s payload,
              send_budget := send_budget w - (FT_HEADER_SIZE + length payload)\<rparr>)"
proof -
  let ?h = "protocol_init_header t s (of_nat (length payload))"
  let ?w1 = "w\<lparr>outbox := outbox w @ header_wire ?h, send_budget := send_budget w - 32\<rparr>"
  have hb: "protocol_serialize_header (little_endian w) ?h (stack_buffer w ''header_buf'' 32)
      = header_wire ?h"
    by (rule serialize_header_wire) simp
  have 1: "socket_send_all w (header_wire ?h) = (Inr (), ?w1)"
    using assms by (simp add: socket_send_all_ok FT_HEADER_SIZE_def)
  have 2: "socket_send_all ?w1 payload =
      (Inr (), ?w1\<lparr>outbox := outbox ?w1 @ payload, send_budget := send_budget ?w1 - length payload\<rparr>)"
    using assms by (simp add: socket_send_all_ok FT_HEADER_SIZE_def)
  show ?thesis
    by (simp add: send_message_def Let_def hb 1 2 frame_def FT_HEADER_SIZE_def)
qed

section \<open>Network operations leave the rest of the environment alone\<close>

definition net_step :: "world \<Rightarrow> world \<Rightarrow> bool" where
  "net_step w w' \<longleftrightarrow>
     w' = w\<lparr>inbox := inbox w', outbox := outbox w', send_budget := send_budget w'\<rparr>"

lemma net_step_refl: "net_step w w"
  by (simp add: net_step_def)

lemma net_step_trans: "net_step w w1 \<Longrightarrow> net_step w1 w2 \<Longrightarrow> net_step w w2"
  by (cases w, cases w1, cases w2) (simp add: net_step_def)

lemma net_step_fields:
  assumes "net_step w w'"
  shows "files w' = files w" "little_endian w' = little_endian w" "uninit w' = uninit w"
    "stats w' = stats w" "fopen_errno w' = fopen_errno w" "malloc_ok w' = malloc_ok w"
    "rename_errno w' = rename_errno w" "disk_available w' = disk_available w"
    "write_budget w' = write_budget w" "write_errno w' = write_errno w"
    "read_fault w' = read_fault w"
  using assms by (cases w, cases w', simp add: net_step_def)+

lemma net_step_socket_send_all: "net_step w (snd (socket_send_all w buffer))"
  by (simp add: socket_send_all_def net_step_def)

lemma net_step_socket_recv_all: "net_step w (snd (socket_recv_all w n))"
  by (simp add: socket_recv_all_def net_step_def)

lemma net_step_send_message: "net_step w (snd (send_message w t s payload))"
proof -
  let ?hb = "protocol_serialize_header (little_endian w)
      (protocol_init_header t s (word_of_nat (length payload))) (stack_buffer w ''header_buf'' FT_HEADER_SIZE)"
  obtain r w1 where 1: "socket_send_all w ?hb = (r, w1)"
    by (cases "socket_send_all w ?hb")
  then have 2: "net_step w w1"
    using net_step_socket_send_all [of w ?hb] by simp
  show ?thesis
  proof (cases r)
    case (Inl e)
    then show ?thesis
      using 1 2 by (simp add: send_message_def Let_def)
  next
    case (Inr u)
    then show ?thesis
      using 1 2 net_step_socket_send_all [of w1 payload]
      by (auto simp: send_message_def Let_def intro: net_step_trans)
  qed
qed

lemma net_step_recv_message: "net_step w (snd (recv_message w n))"
proof -
  obtain r w1 where 1: "socket_recv_all w FT_HEADER_SIZE = (r, w1)"
    by (cases "socket_recv_all w FT_HEADER_SIZE")
  then have 2: "net_step w w1"
    using net_step_socket_recv_all [of w FT_HEADER_SIZE] by simp
  show ?thesis
  proof (cases r)
    case (Inl e)
    then show ?thesis
      using 1 2 by (simp add: recv_message_def)
  next
    case (Inr hb)
    let ?h = "protocol_deserialize_header (little_endian w1) hb"
    have "net_step w (snd (socket_recv_all w1 (unat (payload_size ?h))))"
      using 2 net_step_socket_recv_all [of w1] by (rule net_step_trans)
    then show ?thesis
      using 1 2 Inr by (auto simp: recv_message_def Let_def split: prod.splits sum.splits)
  qed
qed

lemma net_step_send_error: "net_step w (snd (send_error w e c m s))"
  by (simp add: send_error_def net_step_send_message)

lemma net_step_send_chunk_ack: "net_step w (snd (send_chunk_ack w c st s))"
  by (simp add: send_chunk_ack_def net_step_send_message)

lemma net_step_handshake_server: "net_step w (snd (perform_handshake_server w))"
proof -
  obtain r w1 where 1: "recv_message w 4 = (r, w1)"
    by (cases "recv_message w 4")
  then have 2: "net_step w w1"
    using net_step_recv_message [of w 4] by simp
  show ?thesis
  proof (cases r)
    case (Inl e)
    then show ?thesis
      using 1 2 by (simp add: perform_handshake_server_def)
  next
    case (Inr hp)
    have "net_step w (snd (send_message w1 MSG_HANDSHAKE_ACK (sequence_num (fst hp) + 1)
        handshake_payload))"
      using 2 net_step_send_message by (rule net_step_trans)
    then show ?thesis
      using 1 2 Inr
      by (auto simp: perform_handshake_server_def Let_def split: prod.splits)
  qed
qed

lemma net_step_recv_file_info: "net_step w (snd (recv_file_info w))"
proof -
  obtain r w1 where 1: "recv_message w FT_FILE_INFO_SIZE = (r, w1)"
    by (cases "recv_message w FT_FILE_INFO_SIZE")
  then have 2: "net_step w w1"
    using net_step_recv_message [of w FT_FILE_INFO_SIZE] by simp
  show ?thesis
    using 1 2 by (cases r) (auto simp: recv_file_info_def Let_def split: prod.splits)
qed

section \<open>File info and handshake on the wire: lemmas\<close>

lemma length_store_bytes:
  "off + length bs \<le> length buffer \<Longrightarrow> length (store_bytes buffer off bs) = length buffer"
  by (simp add: store_bytes_def)

lemma char_of_byte_of_char: "char_of_byte (byte_of_char c) = c"
proof -
  have "unat (word_of_nat (of_char c) :: u8) = of_char c mod 256"
    by (simp add: unat_of_nat)
  then show ?thesis
    by (simp add: char_of_byte_def byte_of_char_def)
qed

lemma map_char_of_byte_of_char: "map (char_of_byte \<circ> byte_of_char) cs = cs"
  by (induction cs) (simp_all add: char_of_byte_of_char)

text \<open>The fields of a file info laid out as \<open>protocol_serialize_file_info\<close> lays them out.\<close>

definition file_info_wire :: "FileInfo \<Rightarrow> u8 list \<Rightarrow> u8 list" where
  "file_info_wire fi tail = be_bytes 2 (filename_len fi) @ map byte_of_char (filename fi) @
     be_bytes 8 (file_size fi) @ be_bytes 8 (total_chunks fi) @ be_bytes 4 (chunk_size fi) @
     [checksum_type fi] @ file_checksum fi @ be_bytes 4 (file_mode fi) @
     be_bytes 8 (timestamp fi) @ replicate 669 0 @ tail"

lemma length_file_info_wire:
  "length (filename fi) = 256 \<Longrightarrow> length (file_checksum fi) = 32 \<Longrightarrow>
     length (file_info_wire fi tail) = 992 + length tail"
  by (simp add: file_info_wire_def)

lemma deserialize_file_info_wire:
  assumes n: "length (filename fi) = 256" and c: "length (file_checksum fi) = 32"
  shows "protocol_deserialize_file_info le (file_info_wire fi tail) =
    fi\<lparr>filename := (filename fi)[255 := NUL]\<rparr>"
proof -
  let ?l = "be_bytes 2 (filename_len fi)"
  let ?n = "map byte_of_char (filename fi)"
  let ?s = "be_bytes 8 (file_size fi)"
  let ?t = "be_bytes 8 (total_chunks fi)"
  let ?c = "be_bytes 4 (chunk_size fi)"
  let ?k = "[checksum_type fi]"
  let ?h = "file_checksum fi"
  let ?m = "be_bytes 4 (file_mode fi)"
  let ?d = "be_bytes 8 (timestamp fi)"
  let ?z = "replicate 669 (0::u8) @ tail"
  let ?B = "file_info_wire fi tail"
  have B: "?B = ?l @ ?n @ ?s @ ?t @ ?c @ ?k @ ?h @ ?m @ ?d @ ?z"
    by (simp add: file_info_wire_def)
  have len: "992 \<le> length ?B"
    using n c by (simp add: length_file_info_wire)
  have l: "load_bytes ?B (2 * 0) 2 = ?l"
    using load_bytes_append [of "[]" 0 ?l 2] by (simp add: B)
  have nm: "load_bytes ?B 2 FT_MAX_FILENAME_LEN = ?n"
    using load_bytes_append [of ?l 2 ?n 256] n by (simp add: B FT_MAX_FILENAME_LEN_def)
  have s: "load_bytes ?B 258 8 = ?s"
    using load_bytes_append [of "?l @ ?n" 258 ?s 8] n by (simp add: B)
  have t: "load_bytes ?B 266 8 = ?t"
    using load_bytes_append [of "?l @ ?n @ ?s" 266 ?t 8] n by (simp add: B)
  have cs: "load_bytes ?B 274 4 = ?c"
    using load_bytes_append [of "?l @ ?n @ ?s @ ?t" 274 ?c 4] n by (simp add: B)
  have k: "?B ! 278 = checksum_type fi"
    using n by (simp add: B nth_append)
  have h: "load_bytes ?B 279 FT_SHA256_SIZE = ?h"
    using load_bytes_append [of "?l @ ?n @ ?s @ ?t @ ?c @ ?k" 279 ?h 32] n c
    by (simp add: B FT_SHA256_SIZE_def)
  have m: "load_bytes ?B 311 4 = ?m"
    using load_bytes_append [of "?l @ ?n @ ?s @ ?t @ ?c @ ?k @ ?h" 311 ?m 4] n c
    by (simp add: B)
  have d: "load_bytes ?B 315 8 = ?d"
    using load_bytes_append [of "?l @ ?n @ ?s @ ?t @ ?c @ ?k @ ?h @ ?m" 315 ?d 8] n c
    by (simp add: B)
  have "protocol_deserialize_file_info le ?B =
      \<lparr> filename_len = word_be (load_bytes ?B (2 * 0) 2),
        filename = (map char_of_byte (load_bytes ?B 2 FT_MAX_FILENAME_LEN))
                     [FT_MAX_FILENAME_LEN - 1 := NUL],
        file_size = word_be (load_bytes ?B 258 8),
        total_chunks = word_be (load_bytes ?B 266 8),
        chunk_size = word_be (load_bytes ?B 274 4),
        checksum_type = ?B ! 278,
        file_checksum = load_bytes ?B 279 FT_SHA256_SIZE,
        file_mode = word_be (load_bytes ?B 311 4),
        timestamp = word_be (load_bytes ?B 315 8) \<rparr>"
    using len
    by (simp add: protocol_deserialize_file_info_def ntohs_load16 ntohl_load32 ntohll_load64)
  then have "protocol_deserialize_file_info le ?B =
      \<lparr> filename_len = filename_len fi,
        filename = (filename fi)[255 := NUL],
        file_size = file_size fi,
        total_chunks = total_chunks fi,
        chunk_size = chunk_size fi,
        checksum_type = checksum_type fi,
        file_checksum = file_checksum fi,
        file_mode = file_mode fi,
        timestamp = timestamp fi \<rparr>"
    by (simp only: l nm s t cs k h m d)
       (simp add: word_be_bytes map_char_of_byte_of_char FT_MAX_FILENAME_LEN_def)
  then show ?thesis
    by (cases fi) simp
qed

lemma msg_types_declared:
  "declared_msg_type MSG_HANDSHAKE_REQ" "declared_msg_type MSG_HANDSHAKE_ACK"
  "declared_msg_type MSG_FILE_INFO" "declared_msg_type MSG_FILE_ACK"
  "declared_msg_type MSG_CHUNK_DATA" "declared_msg_type MSG_CHUNK_ACK"
  "declared_msg_type MSG_ERROR"
  by (simp_all add: declared_msg_type_def msg_defs)

lemma recv_message_framed:
  assumes inbox: "inbox w = frame t s payload @ rest"
    and t: "declared_msg_type t"
    and len: "length payload < 2 ^ 64"
    and bound: "length payload \<le> max_payload"
  shows "\<exists>h. recv_message w max_payload = (Inr (h, payload), w\<lparr>inbox := rest\<rparr>) \<and>
    msg_type h = t \<and> sequence_num h = s"
proof -
  let ?h = "protocol_init_header t s (of_nat (length payload))"
  have "unat (payload_size ?h) = length payload"
    using len by (simp add: protocol_init_header_def unat_of_nat)
  then have "recv_message w max_payload =
      (Inr (?h\<lparr>checksum := crc32_compute (header_prefix ?h)\<rparr>, payload), w\<lparr>inbox := rest\<rparr>)"
    using inbox t bound
    by (intro recv_message_frame) (simp_all add: frame_def validate_init_header)
  then show ?thesis
    by (simp add: protocol_init_header_def)
qed

lemma handshake_server_frame:
  assumes inbox: "inbox w = frame MSG_HANDSHAKE_REQ s handshake_payload @ rest"
    and budget: "36 \<le> send_budget w"
  shows "perform_handshake_server w =
    (Inr (), w\<lparr>inbox := rest,
              outbox := outbox w @ frame MSG_HANDSHAKE_ACK (s + 1) handshake_payload,
              send_budget := send_budget w - 36\<rparr>)"
proof -
  obtain h where 1: "recv_message w 4 = (Inr (h, handshake_payload), w\<lparr>inbox := rest\<rparr>)"
    and 2: "msg_type h = MSG_HANDSHAKE_REQ" "sequence_num h = s"
    using recv_message_framed [OF inbox msg_types_declared(1), of 4]
    by (auto simp: handshake_payload_def)
  have 3: "send_message (w\<lparr>inbox := rest\<rparr>) MSG_HANDSHAKE_ACK (s + 1) handshake_payload =
      (Inr (), w\<lparr>inbox := rest,
                outbox := outbox w @ frame MSG_HANDSHAKE_ACK (s + 1) handshake_payload,
                send_budget := send_budget w - 36\<rparr>)"
    using budget
    by (simp add: send_message_ok FT_HEADER_SIZE_def handshake_payload_def)
  show ?thesis
    using 2 by (simp add: perform_handshake_server_def 1 3 local_buffer_def)
       (simp add: handshake_payload_def)
qed

lemma recv_file_info_frame:
  assumes inbox: "inbox w = frame MSG_FILE_INFO s payload @ rest"
    and len: "length payload = 1024"
  shows "recv_file_info w =
    (Inr (protocol_deserialize_file_info (little_endian w) payload), w\<lparr>inbox := rest\<rparr>)"
proof -
  obtain h where 1: "recv_message w 1024 = (Inr (h, payload), w\<lparr>inbox := rest\<rparr>)"
    and 2: "msg_type h = MSG_FILE_INFO"
    using recv_message_framed [OF inbox msg_types_declared(3), of 1024] len
    by auto
  show ?thesis
    using 2 len by (simp add: recv_file_info_def FT_FILE_INFO_SIZE_def 1 local_buffer_def)
qed

text \<open>
  An environment in which nothing fails, on a little-endian host with an empty file
  system: the peer delivers \<open>bytes\<close>. The concrete runs start from it.
\<close>

definition quiet_world :: "u8 list \<Rightarrow> world" where
  "quiet_world bytes =
     \<lparr> little_endian = True, uninit = (\<lambda>name i. of_nat i), inbox = bytes, outbox = [],
       send_budget = 1000000, files = (\<lambda>path. None), stats = (\<lambda>path. None),
       fopen_errno = (\<lambda>path. None), read_fault = None, seek_ok = (\<lambda>path offset. True),
       write_budget = 1000000, write_errno = ENOSPC, fflush_errno = None, rename_errno = None,
       disk_available = Some 1000000, malloc_ok = (\<lambda>n. True) \<rparr>"

text \<open>A file info as a sender fills it for a file name and a size.\<close>

definition file_info_for :: "string \<Rightarrow> u64 \<Rightarrow> u64 \<Rightarrow> u32 \<Rightarrow> FileInfo" where
  "file_info_for name size' chunks chunk_size' =
     \<lparr> filename_len = of_nat (length name),
       filename = strncpy name 255 @ [NUL],
       file_size = size',
       total_chunks = chunks,
       chunk_size = chunk_size',
       checksum_type = CHECKSUM_SHA256,
       file_checksum = replicate 32 0,
       file_mode = 0x81A4,
       timestamp = 0 \<rparr>"

lemma length_strncpy: "length (strncpy s n) = n"
  by (simp add: strncpy_def)

lemma c_str_append_NUL: "NUL \<notin> set name \<Longrightarrow> c_str (name @ NUL # rest) = name"
  by (induction name) (auto simp: c_str_def)

lemma c_str_strncpy:
  assumes "NUL \<notin> set name" "length name \<le> n"
  shows "c_str (strncpy name n @ [NUL]) = name"
proof -
  have "strncpy name n @ [NUL] = name @ NUL # replicate (n - length name) NUL"
    using assms by (simp add: strncpy_def replicate_append_same)
  then show ?thesis
    using assms by (simp add: c_str_append_NUL)
qed

lemma file_info_for_received:
  assumes "NUL \<notin> set name" "length name \<le> 255"
  shows "c_str (filename (protocol_deserialize_file_info le
      (file_info_wire (file_info_for name sz n cs) tail))) = name"
proof -
  let ?fi = "file_info_for name sz n cs"
  have "length (filename ?fi) = 256" "length (file_checksum ?fi) = 32"
    by (simp_all add: file_info_for_def length_strncpy)
  then have "filename (protocol_deserialize_file_info le (file_info_wire ?fi tail)) =
      (filename ?fi)[255 := NUL]"
    by (simp add: deserialize_file_info_wire)
  also have "\<dots> = strncpy name 255 @ [NUL]"
    by (simp add: file_info_for_def length_strncpy list_update_append)
  finally show ?thesis
    using assms by (simp add: c_str_strncpy)
qed

section \<open>Chunk counts: lemmas\<close>

lemma ceiling_div_nat:
  assumes "0 < c"
  shows "\<lceil>real n / real c\<rceil> = int ((n + c - 1) div c)"
proof (rule ceiling_unique)
  let ?q = "(n + c - 1) div c"
  have 1: "?q * c \<le> n + c - 1"
    by simp
  have 2: "n + c - 1 < ?q * c + c"
    using assms by (metis add.commute mult.commute dividend_less_div_times)
  from 2 assms have "n \<le> ?q * c"
    by linarith
  then have "real n \<le> real ?q * real c"
    by (metis of_nat_le_iff of_nat_mult)
  then show "real n / real c \<le> of_int (int ?q)"
    using assms by (simp add: divide_le_eq)
  from 1 assms have "?q * c < n + c"
    by linarith
  then have "real ?q * real c < real n + real c"
    by (metis of_nat_less_iff of_nat_mult of_nat_add)
  then have "(real ?q - 1) * real c < real n"
    by (simp add: algebra_simps)
  then show "of_int (int ?q) - 1 < real n / real c"
    using assms by (simp add: less_divide_eq)
qed

lemma unat_of_off_t:
  assumes "0 \<le> sint (x::u64)"
  shows "unat x < 2 ^ 63" and "int (unat x) = sint x"
proof -
  have lt: "sint x < 2 ^ 63"
    using sint_lt [of x] by simp
  then have "take_bit 64 (sint x) = sint x"
    using assms by (simp add: take_bit_int_eq_self)
  then have u: "uint x = sint x"
    by (simp add: uint_sint)
  then show "int (unat x) = sint x"
    by simp
  then show "unat x < 2 ^ 63"
    using lt by (metis of_nat_less_iff of_nat_numeral of_nat_power)
qed

lemma compute_total_chunks_default:
  assumes "unat fs + 524287 < 2 ^ 64"
  shows "unat (compute_total_chunks fs FT_DEFAULT_CHUNK_SIZE) = (unat fs + 524287) div 524288"
proof -
  have c: "(ucast FT_DEFAULT_CHUNK_SIZE :: u64) = 524288"
    by (simp add: FT_DEFAULT_CHUNK_SIZE_def)
  have k: "unat (524287::u64) = 524287" "unat (524288::u64) = 524288"
    by simp_all
  have e: "fs + 524288 - 1 = fs + 524287"
    by simp
  have "unat fs + unat (524287::u64) < 2 ^ LENGTH(64)"
    using assms by simp
  then have "unat (fs + 524287) = unat fs + unat (524287::u64)"
    by (rule unat_add_lem [THEN iffD1])
  then have "unat (fs + 524287) = unat fs + 524287"
    by (simp only: k)
  then have "unat ((fs + 524288 - 1) div 524288) = (unat fs + 524287) div 524288"
    by (simp only: e unat_div k)
  then show ?thesis
    by (simp only: compute_total_chunks_def c)
qed

section \<open>The sender's first messages: lemmas\<close>

lemma handshake_client_frame:
  assumes inbox: "inbox w = frame MSG_HANDSHAKE_ACK s handshake_payload @ rest"
    and budget: "36 \<le> send_budget w"
  shows "perform_handshake_client w =
    (Inr (), w\<lparr>inbox := rest,
              outbox := outbox w @ frame MSG_HANDSHAKE_REQ 0 handshake_payload,
              send_budget := send_budget w - 36\<rparr>)"
proof -
  let ?w1 = "w\<lparr>outbox := outbox w @ frame MSG_HANDSHAKE_REQ 0 handshake_payload,
    send_budget := send_budget w - (FT_HEADER_SIZE + length handshake_payload)\<rparr>"
  have 1: "send_message w MSG_HANDSHAKE_REQ 0 handshake_payload = (Inr (), ?w1)"
    using budget
    by (intro send_message_ok) (simp add: FT_HEADER_SIZE_def handshake_payload_def)
  have "inbox ?w1 = frame MSG_HANDSHAKE_ACK s handshake_payload @ rest"
    using inbox by simp
  then obtain h where 2: "recv_message ?w1 4 = (Inr (h, handshake_payload), ?w1\<lparr>inbox := rest\<rparr>)"
    and 3: "msg_type h = MSG_HANDSHAKE_ACK"
    using recv_message_framed [of ?w1 MSG_HANDSHAKE_ACK s handshake_payload rest 4]
      msg_types_declared(2)
    by (auto simp: handshake_payload_def)
  show ?thesis
    using 3 by (simp add: perform_handshake_client_def 1 2 local_buffer_def)
       (simp add: handshake_payload_def FT_HEADER_SIZE_def)
qed

lemma length_serialize_file_info:
  assumes "length buffer = 1024"
  shows "length (protocol_serialize_file_info le fi buffer) = 1024"
  using assms
  by (simp add: protocol_serialize_file_info_def Let_def store16_def store32_def store64_def
      length_store_bytes FT_MAX_FILENAME_LEN_def FT_SHA256_SIZE_def)

lemma send_file_info_ok:
  assumes "1056 \<le> send_budget w"
  shows "send_file_info w fi s =
    (Inr (), w\<lparr>outbox := outbox w @ frame MSG_FILE_INFO s
                 (protocol_serialize_file_info (little_endian w) fi
                    (stack_buffer w ''buffer'' FT_FILE_INFO_SIZE)),
              send_budget := send_budget w - 1056\<rparr>)"
proof -
  let ?p = "protocol_serialize_file_info (little_endian w) fi
      (stack_buffer w ''buffer'' FT_FILE_INFO_SIZE)"
  have len: "length ?p = 1024"
    by (rule length_serialize_file_info) (simp add: FT_FILE_INFO_SIZE_def)
  then have "send_message w MSG_FILE_INFO s ?p =
      (Inr (), w\<lparr>outbox := outbox w @ frame MSG_FILE_INFO s ?p,
                send_budget := send_budget w - (FT_HEADER_SIZE + length ?p)\<rparr>)"
    using assms by (intro send_message_ok) (simp add: FT_HEADER_SIZE_def)
  then show ?thesis
    using len by (simp add: send_file_info_def Let_def FT_HEADER_SIZE_def)
qed

lemma send_chunks_none:
  "total_chunks fi = 0 \<Longrightarrow> send_chunks w f fi 0 s = (True, w)"
  by (simp add: send_chunks.simps)

lemma serialize_file_info_wire:
  assumes len: "length buffer = 1024"
    and n: "length (filename fi) = 256" and c: "length (file_checksum fi) = 32"
  shows "protocol_serialize_file_info le fi buffer = file_info_wire fi (drop 992 buffer)"
proof -
  let ?l = "be_bytes 2 (filename_len fi)"
  let ?n = "map byte_of_char (filename fi)"
  let ?s = "be_bytes 8 (file_size fi)"
  let ?t = "be_bytes 8 (total_chunks fi)"
  let ?c = "be_bytes 4 (chunk_size fi)"
  let ?k = "[checksum_type fi]"
  let ?f = "file_checksum fi"
  let ?m = "be_bytes 4 (file_mode fi)"
  let ?i = "be_bytes 8 (timestamp fi)"
  let ?z = "replicate 669 (0::u8)"
  define b1 where "b1 = store16 le buffer (2 * 0) (htons le (filename_len fi))"
  define b2 where "b2 = store_bytes b1 2 (map byte_of_char (take FT_MAX_FILENAME_LEN (filename fi)))"
  define b3 where "b3 = store64 le b2 258 (htonll le (file_size fi))"
  define b4 where "b4 = store64 le b3 266 (htonll le (total_chunks fi))"
  define b5 where "b5 = store32 le b4 274 (htonl le (chunk_size fi))"
  define b6 where "b6 = store_bytes b5 278 [checksum_type fi]"
  define b7 where "b7 = store_bytes b6 279 (take FT_SHA256_SIZE (file_checksum fi))"
  define b8 where "b8 = store32 le b7 311 (htonl le (file_mode fi))"
  define b9 where "b9 = store64 le b8 315 (htonll le (timestamp fi))"
  define b10 where "b10 = store_bytes b9 323 (replicate 669 0)"
  have 1: "b1 = ?l @ drop 2 buffer"
    using store_bytes_append [of "[]" 0 buffer ?l] by (simp add: b1_def store16_htons)
  have 2: "b2 = (?l @ ?n) @ drop 258 buffer"
    using store_bytes_append [of ?l 2 "drop 2 buffer" ?n] n
    by (simp add: b2_def 1 FT_MAX_FILENAME_LEN_def)
  have 3: "b3 = (?l @ ?n @ ?s) @ drop 266 buffer"
    using store_bytes_append [of "?l @ ?n" 258 "drop 258 buffer" ?s] n
    by (simp add: b3_def 2 store64_htonll)
  have 4: "b4 = (?l @ ?n @ ?s @ ?t) @ drop 274 buffer"
    using store_bytes_append [of "?l @ ?n @ ?s" 266 "drop 266 buffer" ?t] n
    by (simp add: b4_def 3 store64_htonll)
  have 5: "b5 = (?l @ ?n @ ?s @ ?t @ ?c) @ drop 278 buffer"
    using store_bytes_append [of "?l @ ?n @ ?s @ ?t" 274 "drop 274 buffer" ?c] n
    by (simp add: b5_def 4 store32_htonl)
  have 6: "b6 = (?l @ ?n @ ?s @ ?t @ ?c @ ?k) @ drop 279 buffer"
    using store_bytes_append [of "?l @ ?n @ ?s @ ?t @ ?c" 278 "drop 278 buffer" ?k] n
    by (simp add: b6_def 5)
  have 7: "b7 = (?l @ ?n @ ?s @ ?t @ ?c @ ?k @ ?f) @ drop 311 buffer"
    using store_bytes_append [of "?l @ ?n @ ?s @ ?t @ ?c @ ?k" 279 "drop 279 buffer" ?f] n c
    by (simp add: b7_def 6 FT_SHA256_SIZE_def)
  have 8: "b8 = (?l @ ?n @ ?s @ ?t @ ?c @ ?k @ ?f @ ?m) @ drop 315 buffer"
    using store_bytes_append [of "?l @ ?n @ ?s @ ?t @ ?c @ ?k @ ?f" 311 "drop 311 buffer" ?m] n c
    by (simp add: b8_def 7 store32_htonl)
  have 9: "b9 = (?l @ ?n @ ?s @ ?t @ ?c @ ?k @ ?f @ ?m @ ?i) @ drop 323 buffer"
    using store_bytes_append [of "?l @ ?n @ ?s @ ?t @ ?c @ ?k @ ?f @ ?m" 315 "drop 315 buffer" ?i]
      n c
    by (simp add: b9_def 8 store64_htonll)
  have 10: "b10 = file_info_wire fi (drop 992 buffer)"
    using store_bytes_append [of "?l @ ?n @ ?s @ ?t @ ?c @ ?k @ ?f @ ?m @ ?i" 323
        "drop 323 buffer" ?z] n c
    by (simp add: b10_def 9 file_info_wire_def)
  have "protocol_serialize_file_info le fi buffer = b10"
    by (simp only: protocol_serialize_file_info_def Let_def b1_def b2_def b3_def b4_def b5_def
        b6_def b7_def b8_def b9_def b10_def)
  then show ?thesis
    by (simp only: 10)
qed

lemma prepare_file_info_lengths:
  "length (filename (prepare_file_info md)) = 256"
  "length (file_checksum (prepare_file_info md)) = 32"
  by (simp_all add: prepare_file_info_def length_strncpy FT_MAX_FILENAME_LEN_def
      FT_SHA256_SIZE_def)

lemma sent_file_info_decodes:
  assumes "length buffer = 1024"
  shows "protocol_deserialize_file_info le'
      (protocol_serialize_file_info le (prepare_file_info md) buffer) =
    (prepare_file_info md)\<lparr>filename := (filename (prepare_file_info md))[255 := NUL]\<rparr>"
  using assms
  by (simp add: serialize_file_info_wire deserialize_file_info_wire prepare_file_info_lengths)

section \<open>Chunks and acknowledgments on the wire: lemmas\<close>

definition chunk_header_wire :: "ChunkHeader \<Rightarrow> u8 list" where
  "chunk_header_wire ch = be_bytes 8 (chunk_id ch) @ be_bytes 8 (chunk_offset ch) @
     be_bytes 4 (chunk_hdr_size ch) @ be_bytes 4 (chunk_crc32 ch)"

lemma length_chunk_header_wire [simp]: "length (chunk_header_wire ch) = 24"
  by (simp add: chunk_header_wire_def)








section \<open>The sender's loops: lemmas\<close>











section \<open>The retry loop of the sender: lemmas\<close>











section \<open>The receiving loop: lemmas\<close>



lemma receive_chunks_done:
  "\<not> received < total_chunks fi \<Longrightarrow> receive_chunks w f fi received s = (True, w)"
  by (simp add: receive_chunks.simps [of w f fi received s])













section \<open>Headers with any stored checksum: lemmas\<close>

text \<open>The 32 bytes of a header on the wire whose checksum field holds \<open>checksum h\<close>.\<close>

definition header_bytes :: "MessageHeader \<Rightarrow> u8 list" where
  "header_bytes h = header_prefix h @ be_bytes 4 (checksum h) @ be_bytes 4 (reserved h)"

lemma header_prefix_checksum [simp]: "header_prefix (h\<lparr>checksum := c\<rparr>) = header_prefix h"
  by (simp add: header_prefix_def)

lemma header_bytes_wire:
  "header_bytes (h\<lparr>checksum := c\<rparr>) =
     header_prefix h @ be_bytes 4 c @ be_bytes 4 (reserved h)"
  by (simp add: header_bytes_def)

lemma length_header_bytes [simp]: "length (header_bytes h) = 32"
  by (simp add: header_bytes_def)

lemma deserialize_header_bytes: "protocol_deserialize_header le (header_bytes h) = h"
proof -
  let ?m = "be_bytes 4 (magic h)"
  let ?f = "be_bytes 2 (flags h)"
  let ?s = "be_bytes 8 (sequence_num h)"
  let ?p = "be_bytes 8 (payload_size h)"
  let ?c = "be_bytes 4 (checksum h)"
  let ?r = "be_bytes 4 (reserved h)"
  let ?B = "header_bytes h"
  have B: "?B = ?m @ [version h, msg_type h] @ ?f @ ?s @ ?p @ ?c @ ?r"
    by (simp add: header_bytes_def header_prefix_def)
  have m: "load_bytes ?B (4 * 0) 4 = ?m"
    using load_bytes_append [of "[]" 0 ?m 4] by (simp add: B)
  have v: "?B ! 4 = version h" "?B ! 5 = msg_type h"
    by (simp_all add: B nth_append)
  have f: "load_bytes ?B (2 * 3) 2 = ?f"
    using load_bytes_append [of "?m @ [version h, msg_type h]" 6 ?f 2 "?s @ ?p @ ?c @ ?r"]
    by (simp add: B)
  have s: "load_bytes ?B (8 * 1) 8 = ?s"
    using load_bytes_append [of "?m @ [version h, msg_type h] @ ?f" 8 ?s 8 "?p @ ?c @ ?r"]
    by (simp add: B)
  have p: "load_bytes ?B (8 * 2) 8 = ?p"
    using load_bytes_append [of "?m @ [version h, msg_type h] @ ?f @ ?s" 16 ?p 8 "?c @ ?r"]
    by (simp add: B)
  have c: "load_bytes ?B (4 * 6) 4 = ?c"
    using load_bytes_append [of "?m @ [version h, msg_type h] @ ?f @ ?s @ ?p" 24 ?c 4 ?r]
    by (simp add: B)
  have r: "load_bytes ?B (4 * 7) 4 = ?r"
    using load_bytes_append [of "?m @ [version h, msg_type h] @ ?f @ ?s @ ?p @ ?c" 28 ?r 4 "[]"]
    by (simp add: B)
  have "protocol_deserialize_header le ?B =
      \<lparr> magic = word_be (load_bytes ?B (4 * 0) 4), version = ?B ! 4, msg_type = ?B ! 5,
        flags = word_be (load_bytes ?B (2 * 3) 2),
        sequence_num = word_be (load_bytes ?B (8 * 1) 8),
        payload_size = word_be (load_bytes ?B (8 * 2) 8),
        checksum = word_be (load_bytes ?B (4 * 6) 4),
        reserved = word_be (load_bytes ?B (4 * 7) 4) \<rparr>"
    by (simp add: protocol_deserialize_header_def ntohs_load16 ntohl_load32 ntohll_load64)
  then show ?thesis
    by (simp only: m v f s p c r) (simp add: word_be_bytes)
qed

lemma recv_message_bytes:
  assumes inbox: "inbox w = header_bytes h @ payload @ rest"
    and valid: "protocol_validate_header h = FT_SUCCESS"
    and size: "unat (payload_size h) = length payload"
    and bound: "length payload \<le> max_payload"
  shows "recv_message w max_payload = (Inr (h, payload), w\<lparr>inbox := rest\<rparr>)"
proof -
  let ?w1 = "w\<lparr>inbox := payload @ rest\<rparr>"
  have 1: "socket_recv_all w FT_HEADER_SIZE = (Inr (header_bytes h), ?w1)"
    using inbox by (simp add: socket_recv_all_append FT_HEADER_SIZE_def)
  show ?thesis
  proof (cases "payload = []")
    case True
    then have "payload_size h = 0"
      using size by (simp add: unat_eq_0)
    then show ?thesis
      using True valid by (simp add: recv_message_def 1 deserialize_header_bytes Let_def)
  next
    case False
    then have pos: "payload_size h > 0"
      using size by (metis length_greater_0_conv unat_gt_0 word_gt_0)
    have 5: "socket_recv_all ?w1 (length payload) = (Inr payload, ?w1\<lparr>inbox := rest\<rparr>)"
      by (simp add: socket_recv_all_append)
    show ?thesis
      using pos size bound valid
      by (simp add: recv_message_def 1 5 deserialize_header_bytes Let_def)
  qed
qed

text \<open>
  The header of a \<open>FILE_ACK\<close> with sequence number 2 and a payload of 4 bytes, as sent, and
  the same header after the last byte of \<open>payload_size\<close> was changed from 4 to 5 on the
  way: the checksum field still holds the CRC-32 of the bytes sent.
\<close>

definition sent_header :: MessageHeader where
  "sent_header = (protocol_init_header MSG_FILE_ACK 2 4)\<lparr>checksum := 0xD863578B\<rparr>"

definition corrupted_header :: MessageHeader where
  "corrupted_header = sent_header\<lparr>payload_size := 5\<rparr>"

lemma sent_header_bytes:
  "header_bytes sent_header = header_wire (protocol_init_header MSG_FILE_ACK 2 4)"
  "header_bytes sent_header =
     [0x46, 0x54, 0x43, 0x50, 1, 4, 0, 0, 0, 0, 0, 0, 0, 0, 0, 2, 0, 0, 0, 0, 0, 0, 0, 4,
      0xD8, 0x63, 0x57, 0x8B, 0, 0, 0, 0]"
  by (simp_all add: sent_header_def header_bytes_def header_wire_def header_prefix_def
      protocol_init_header_def FT_MAGIC_NUMBER_def FT_PROTOCOL_VERSION_def MSG_FILE_ACK_def
      bytes_eval crc32_eval)

lemma corrupted_header_bytes:
  "header_bytes corrupted_header = (header_bytes sent_header)[23 := 5]"
  by (simp add: sent_header_bytes(2))
    (simp add: corrupted_header_def sent_header_def header_bytes_def header_prefix_def
      protocol_init_header_def FT_MAGIC_NUMBER_def FT_PROTOCOL_VERSION_def MSG_FILE_ACK_def
      bytes_eval)

lemma corrupted_header_crc:
  "crc32_compute (header_prefix corrupted_header) = 0xAF64671D"
  "checksum corrupted_header = 0xD863578B"
  by (simp_all add: corrupted_header_def sent_header_def header_prefix_def
      protocol_init_header_def FT_MAGIC_NUMBER_def FT_PROTOCOL_VERSION_def MSG_FILE_ACK_def
      bytes_eval crc32_eval)

lemma corrupted_header_valid:
  "protocol_validate_header corrupted_header = FT_SUCCESS"
  "payload_size corrupted_header = 5"
proof -
  have c: "corrupted_header = (protocol_init_header MSG_FILE_ACK 2 5)\<lparr>checksum := 0xD863578B\<rparr>"
    by (simp add: corrupted_header_def sent_header_def protocol_init_header_def)
  have "protocol_validate_header (protocol_init_header MSG_FILE_ACK 2 5) = FT_SUCCESS"
    by (rule validate_init_header) (simp add: msg_types_declared)
  then show "protocol_validate_header corrupted_header = FT_SUCCESS"
    by (simp only: c validate_ignores_checksum)
  show "payload_size corrupted_header = 5"
    by (simp add: corrupted_header_def)
qed

section \<open>The cleanup of the receiver: lemmas\<close>

text \<open>
  With \<open>file\<close> still set, a failure deletes the temp path; with \<open>file = NULL\<close> the world is
  left as it is.
\<close>

lemma cleanup_deletes_temp:
  "files (snd (receive_file_cleanup w (Some f) temp_path (-1))) temp_path = None"
  by (simp add: receive_file_cleanup_def file_delete_def)

lemma cleanup_without_file: "receive_file_cleanup w None temp_path result = (result, w)"
  by (simp add: receive_file_cleanup_def)

lemma receive_file_run:
  assumes "perform_handshake_server w = (Inr (), w1)"
    and "recv_file_info w1 = (Inr fi, w2)"
    and "file_sanitize_filename (c_str (filename fi)) FT_MAX_FILENAME_LEN = (FT_SUCCESS, name)"
    and "file_check_disk_space w2 output_dir (file_size fi) = FT_SUCCESS"
    and "file_open_write w2 output_dir name 1024 = (Inr (f, temp_path), w3)"
    and "send_message w3 MSG_FILE_ACK 2 [0, 0, 0, 0] = (Inr (), w4)"
    and "malloc_ok w4 (unat (chunk_size fi))"
    and "receive_chunks w4 f fi 0 3 = (True, w5)"
    and "file_finalize_write w5 temp_path (file_build_path output_dir name 1024) = (r, w6)"
  shows "receive_file w output_dir = (if r \<noteq> FT_SUCCESS then -1 else 0, w6)"
  using assms by (simp add: receive_file_def receive_file_cleanup_def Let_def)

section \<open>A lower-case drive prefix: a run\<close>

text \<open>A transfer of an empty file under the declared name \<open>c:boot.ini\<close>.\<close>

definition lower_drive_stream :: "u8 list" where
  "lower_drive_stream =
     frame MSG_HANDSHAKE_REQ 0 handshake_payload @
     frame MSG_FILE_INFO 1
       (file_info_wire (file_info_for ''c:boot.ini'' 0 0 524288) (replicate 32 0))"

lemma lower_drive_run:
  assumes acc: "file_sanitize_filename ''c:boot.ini'' 256 = (FT_SUCCESS, ''cboot.ini'')"
  shows "fst (receive_file (quiet_world lower_drive_stream) ''out'') = 0"
    and "files (snd (receive_file (quiet_world lower_drive_stream) ''out'')) ''out/cboot.ini'' =
      Some []"
proof -
  let ?lfi = "file_info_wire (file_info_for ''c:boot.ini'' 0 0 524288) (replicate 32 0)"
  let ?li = "protocol_deserialize_file_info True ?lfi"
  let ?v = "quiet_world lower_drive_stream"
  let ?v1 = "?v\<lparr>inbox := frame MSG_FILE_INFO 1 ?lfi @ [],
     outbox := outbox ?v @ frame MSG_HANDSHAKE_ACK (0 + 1) handshake_payload,
     send_budget := send_budget ?v - 36\<rparr>"
  let ?v2 = "?v1\<lparr>inbox := []\<rparr>"
  let ?v3 = "?v2\<lparr>files := (files ?v2)(''out/.cboot.ini.tmp'' \<mapsto> [])\<rparr>"
  let ?v4 = "?v3\<lparr>outbox := outbox ?v3 @ frame MSG_FILE_ACK 2 [0, 0, 0, 0],
     send_budget := send_budget ?v3 - (FT_HEADER_SIZE + length [0::u8, 0, 0, 0])\<rparr>"
  let ?v6 = "?v4\<lparr>files := (files ?v4)(''out/cboot.ini'' := files ?v4 ''out/.cboot.ini.tmp'',
     ''out/.cboot.ini.tmp'' := None)\<rparr>"
  have llen: "length ?lfi = 1024"
    by (simp add: length_file_info_wire file_info_for_def length_strncpy)
  have lfields: "total_chunks ?li = 0" "file_size ?li = 0" "chunk_size ?li = 524288"
    by (simp_all add: deserialize_file_info_wire file_info_for_def length_strncpy)
  have lhs: "perform_handshake_server ?v = (Inr (), ?v1)"
    by (rule handshake_server_frame) (simp_all add: quiet_world_def lower_drive_stream_def)
  have "recv_file_info ?v1 =
      (Inr (protocol_deserialize_file_info (little_endian ?v1) ?lfi), ?v1\<lparr>inbox := []\<rparr>)"
    using llen by (intro recv_file_info_frame) simp_all
  then have lfi: "recv_file_info ?v1 = (Inr ?li, ?v2)"
    by (simp add: quiet_world_def)
  have lnm: "c_str (filename ?li) = ''c:boot.ini''"
    by (rule file_info_for_received) (simp_all add: NUL_def)
  have lsan: "file_sanitize_filename (c_str (filename ?li)) FT_MAX_FILENAME_LEN =
      (FT_SUCCESS, ''cboot.ini'')"
    by (simp only: lnm FT_MAX_FILENAME_LEN_def acc)
  have lspace: "file_check_disk_space ?v2 ''out'' (file_size ?li) = FT_SUCCESS"
    by (simp add: lfields file_check_disk_space_def quiet_world_def)
  have lop: "file_open_write ?v2 ''out'' ''cboot.ini'' 1024 =
      (Inr (''out/.cboot.ini.tmp'', ''out/.cboot.ini.tmp''), ?v3)"
    by (simp add: file_open_write_def temp_path_of_def snprintf_def PATH_SEPARATOR_def
        quiet_world_def Let_def)
  have lack: "send_message ?v3 MSG_FILE_ACK 2 [0, 0, 0, 0] = (Inr (), ?v4)"
    by (rule send_message_ok) (simp add: FT_HEADER_SIZE_def quiet_world_def)
  have lmem: "malloc_ok ?v4 (unat (chunk_size ?li))"
    by (simp add: quiet_world_def)
  have lloop: "receive_chunks ?v4 ''out/.cboot.ini.tmp'' ?li 0 3 = (True, ?v4)"
    by (rule receive_chunks_done) (simp add: lfields)
  have lpath: "file_build_path ''out'' ''cboot.ini'' 1024 = ''out/cboot.ini''"
    by (simp add: file_build_path_def snprintf_def PATH_SEPARATOR_def Let_def)
  have lfin: "file_finalize_write ?v4 ''out/.cboot.ini.tmp''
      (file_build_path ''out'' ''cboot.ini'' 1024) = (FT_SUCCESS, ?v6)"
    by (simp only: lpath) (simp add: file_finalize_write_def quiet_world_def)
  have "receive_file ?v ''out'' = (if FT_SUCCESS \<noteq> FT_SUCCESS then -1 else 0, ?v6)"
    using lhs lfi lsan lspace lop lack lmem lloop lfin by (rule receive_file_run)
  then have lrun: "receive_file ?v ''out'' = (0, ?v6)"
    by simp
  have lfile: "files ?v6 ''out/cboot.ini'' = Some []"
    by (simp add: quiet_world_def)
  show "fst (receive_file (quiet_world lower_drive_stream) ''out'') = 0"
    by (simp only: lrun fst_conv)
  show "files (snd (receive_file (quiet_world lower_drive_stream) ''out'')) ''out/cboot.ini'' =
      Some []"
    by (simp only: lrun snd_conv lfile)
qed

section \<open>The claims\<close>









text \<open>
  C2. What \<open>receive_file\<close> does when the final rename fails: the code has closed the file
  and set \<open>file = NULL\<close> before \<open>file_finalize_write\<close>, so the block under the label
  \<open>cleanup\<close>, whose deletion of the temp path (\<open>Delete temp file on error\<close>) stands under
  \<open>if (file != NULL)\<close>, deletes nothing. A run that opened the temp sink, received all
  chunks and then fails in \<open>rename\<close> returns \<open>-1\<close> in the world the chunk loop left, with
  the temp file still there.
\<close>

theorem rename_failure_keeps_temp:
  "perform_handshake_server w = (Inr (), w1) \<and> recv_file_info w1 = (Inr fi, w2) \<and>
   file_sanitize_filename (c_str (filename fi)) FT_MAX_FILENAME_LEN = (FT_SUCCESS, name) \<and>
   file_check_disk_space w2 output_dir (file_size fi) = FT_SUCCESS \<and>
   file_open_write w2 output_dir name 1024 = (Inr (f, temp_path), w3) \<and>
   send_message w3 MSG_FILE_ACK 2 [0, 0, 0, 0] = (Inr (), w4) \<and>
   malloc_ok w4 (unat (chunk_size fi)) \<and>
   receive_chunks w4 f fi 0 3 = (True, w5) \<and>
   files w5 temp_path \<noteq> None \<and> rename_errno w5 \<noteq> None \<longrightarrow>
     receive_file w output_dir = (-1, w5) \<and>
     files (snd (receive_file w output_dir)) temp_path \<noteq> None"
proof (intro impI)
  assume a: "perform_handshake_server w = (Inr (), w1) \<and> recv_file_info w1 = (Inr fi, w2) \<and>
   file_sanitize_filename (c_str (filename fi)) FT_MAX_FILENAME_LEN = (FT_SUCCESS, name) \<and>
   file_check_disk_space w2 output_dir (file_size fi) = FT_SUCCESS \<and>
   file_open_write w2 output_dir name 1024 = (Inr (f, temp_path), w3) \<and>
   send_message w3 MSG_FILE_ACK 2 [0, 0, 0, 0] = (Inr (), w4) \<and>
   malloc_ok w4 (unat (chunk_size fi)) \<and>
   receive_chunks w4 f fi 0 3 = (True, w5) \<and>
   files w5 temp_path \<noteq> None \<and> rename_errno w5 \<noteq> None"
  have fin: "file_finalize_write w5 temp_path (file_build_path output_dir name 1024) =
      (FT_ERR_FILE_WRITE, w5)"
    using a by (simp add: file_finalize_write_def)
  have "receive_file w output_dir = (-1, w5)"
    using a by (simp add: receive_file_def fin receive_file_cleanup_def Let_def)
  then show "receive_file w output_dir = (-1, w5) \<and>
     files (snd (receive_file w output_dir)) temp_path \<noteq> None"
    using a by simp
qed

text \<open>
  A transfer of the empty file \<open>a.bin\<close> (no chunk) into the directory \<open>out\<close>, on a host
  where \<open>rename\<close> fails with \<open>EACCES\<close>.
\<close>

definition rename_fails_world :: world where
  "rename_fails_world =
     (quiet_world
        (frame MSG_HANDSHAKE_REQ 0 handshake_payload @
         frame MSG_FILE_INFO 1
           (file_info_wire (file_info_for ''a.bin'' 0 0 524288) (replicate 32 0))))
       \<lparr> rename_errno := Some EACCES \<rparr>"

theorem rename_failure_keeps_temp_witness:
  "fst (receive_file rename_fails_world ''out'') = -1 \<and>
   files (snd (receive_file rename_fails_world ''out'')) ''out/.a.bin.tmp'' = Some [] \<and>
   files (snd (receive_file rename_fails_world ''out'')) ''out/a.bin'' = None"
proof -
  let ?fiw = "file_info_wire (file_info_for ''a.bin'' 0 0 524288) (replicate 32 0)"
  let ?fi = "protocol_deserialize_file_info True ?fiw"
  let ?w = rename_fails_world
  let ?w1 = "?w\<lparr>inbox := frame MSG_FILE_INFO 1 ?fiw @ [],
     outbox := outbox ?w @ frame MSG_HANDSHAKE_ACK (0 + 1) handshake_payload,
     send_budget := send_budget ?w - 36\<rparr>"
  let ?w2 = "?w1\<lparr>inbox := []\<rparr>"
  let ?w3 = "?w2\<lparr>files := (files ?w2)(''out/.a.bin.tmp'' \<mapsto> [])\<rparr>"
  let ?w4 = "?w3\<lparr>outbox := outbox ?w3 @ frame MSG_FILE_ACK 2 [0, 0, 0, 0],
     send_budget := send_budget ?w3 - (FT_HEADER_SIZE + length [0::u8, 0, 0, 0])\<rparr>"
  have len: "length ?fiw = 1024"
    by (simp add: length_file_info_wire file_info_for_def length_strncpy)
  have fields: "total_chunks ?fi = 0" "file_size ?fi = 0" "chunk_size ?fi = 524288"
    by (simp_all add: deserialize_file_info_wire file_info_for_def length_strncpy)
  have hs: "perform_handshake_server ?w = (Inr (), ?w1)"
    by (rule handshake_server_frame) (simp_all add: quiet_world_def rename_fails_world_def)
  have "recv_file_info ?w1 =
      (Inr (protocol_deserialize_file_info (little_endian ?w1) ?fiw), ?w1\<lparr>inbox := []\<rparr>)"
    using len by (intro recv_file_info_frame) simp_all
  then have fi: "recv_file_info ?w1 = (Inr ?fi, ?w2)"
    by (simp add: quiet_world_def rename_fails_world_def)
  have nm: "c_str (filename ?fi) = ''a.bin''"
    by (rule file_info_for_received) (simp_all add: NUL_def)
  have san: "file_sanitize_filename (c_str (filename ?fi)) FT_MAX_FILENAME_LEN =
      (FT_SUCCESS, ''a.bin'')"
    by (simp add: nm file_sanitize_filename_def c_index_def name_char_def NUL_def
        FT_MAX_FILENAME_LEN_def)
  have space: "file_check_disk_space ?w2 ''out'' (file_size ?fi) = FT_SUCCESS"
    by (simp add: fields file_check_disk_space_def quiet_world_def rename_fails_world_def)
  have op: "file_open_write ?w2 ''out'' ''a.bin'' 1024 =
      (Inr (''out/.a.bin.tmp'', ''out/.a.bin.tmp''), ?w3)"
    by (simp add: file_open_write_def temp_path_of_def snprintf_def PATH_SEPARATOR_def
        quiet_world_def rename_fails_world_def Let_def)
  have ack: "send_message ?w3 MSG_FILE_ACK 2 [0, 0, 0, 0] = (Inr (), ?w4)"
    by (rule send_message_ok)
      (simp add: FT_HEADER_SIZE_def quiet_world_def rename_fails_world_def)
  have mem: "malloc_ok ?w4 (unat (chunk_size ?fi))"
    by (simp add: quiet_world_def rename_fails_world_def)
  have loop: "receive_chunks ?w4 ''out/.a.bin.tmp'' ?fi 0 3 = (True, ?w4)"
    by (rule receive_chunks_done) (simp add: fields)
  have tmp: "files ?w4 ''out/.a.bin.tmp'' \<noteq> None" and ren: "rename_errno ?w4 \<noteq> None"
    by (simp_all add: quiet_world_def rename_fails_world_def)
  have "receive_file ?w ''out'' = (-1, ?w4)"
    using rename_failure_keeps_temp [where w = ?w and ?w1.0 = ?w1 and fi = ?fi and ?w2.0 = ?w2
        and name = "''a.bin''" and output_dir = "''out''" and f = "''out/.a.bin.tmp''"
        and temp_path = "''out/.a.bin.tmp''" and ?w3.0 = ?w3 and ?w4.0 = ?w4 and ?w5.0 = ?w4]
      hs fi san space op ack mem loop tmp ren
    by blast
  moreover have "files ?w4 ''out/.a.bin.tmp'' = Some []" "files ?w4 ''out/a.bin'' = None"
    by (simp_all add: quiet_world_def rename_fails_world_def)
  ultimately show ?thesis
    by simp
qed

text \<open>
  C3 (as amended). For every header \<open>h\<close>, on either byte order, with \<open>B\<close> the 32-byte
  buffer that \<open>protocol_serialize_header\<close> has filled: \<open>protocol_deserialize_header B\<close>
  equals \<open>h\<close> in magic, version, msg_type, flags, sequence_num, payload_size and
  reserved, and its checksum field is the CRC-32 of \<open>B[0..24)\<close>, whatever \<open>h\<close> held
  there; that CRC-32 is the big-endian \<open>u32\<close> stored at \<open>B[24..28)\<close>.
\<close>

theorem header_roundtrip:
  assumes "length buffer = 32"
  shows "length (protocol_serialize_header le h buffer) = 32 \<and>
    protocol_deserialize_header le (protocol_serialize_header le h buffer) =
      h\<lparr>checksum := crc32_compute (take 24 (protocol_serialize_header le h buffer))\<rparr> \<and>
    crc32_compute (take 24 (protocol_serialize_header le h buffer)) =
      word_be (load_bytes (protocol_serialize_header le h buffer) 24 4)"
proof -
  have B: "protocol_serialize_header le h buffer = header_wire h"
    using assms by (rule serialize_header_wire)
  have p: "take 24 (header_wire h) = header_prefix h"
    by (simp add: header_wire_def)
  have c: "load_bytes (header_wire h) 24 4 = be_bytes 4 (crc32_compute (header_prefix h))"
    using load_bytes_append [of "header_prefix h" 24
        "be_bytes 4 (crc32_compute (header_prefix h))" 4 "be_bytes 4 (reserved h)"]
    by (simp add: header_wire_def)
  show ?thesis
    by (simp add: B p c deserialize_header_wire word_be_bytes)
qed

theorem header_roundtrip_witness:
  "length (replicate 32 (0::u8)) = 32 \<and>
   length (protocol_serialize_header True (protocol_init_header MSG_FILE_ACK 2 4)
     (replicate 32 0)) = 32 \<and>
   magic (protocol_deserialize_header True
     (protocol_serialize_header True (protocol_init_header MSG_FILE_ACK 2 4)
       (replicate 32 0))) = 0x46544350 \<and>
   payload_size (protocol_deserialize_header True
     (protocol_serialize_header True (protocol_init_header MSG_FILE_ACK 2 4)
       (replicate 32 0))) = 4"
  using header_roundtrip [of "replicate 32 0" True "protocol_init_header MSG_FILE_ACK 2 4"]
  by (simp add: protocol_init_header_def FT_MAGIC_NUMBER_def)

text \<open>
  C3 as stated fails in the checksum field: a header fresh from \<open>protocol_init_header\<close>
  has checksum 0, and what comes back carries the CRC-32 of the first 24 bytes.
\<close>

theorem header_roundtrip_counterexample:
  "protocol_deserialize_header True
     (protocol_serialize_header True (protocol_init_header MSG_HANDSHAKE_REQ 0 4)
       (replicate 32 0))
   \<noteq> protocol_init_header MSG_HANDSHAKE_REQ 0 4"
proof
  let ?h = "protocol_init_header MSG_HANDSHAKE_REQ 0 4"
  let ?B = "protocol_serialize_header True ?h (replicate 32 0)"
  assume "protocol_deserialize_header True ?B = ?h"
  then have "checksum (protocol_deserialize_header True ?B) = checksum ?h"
    by (rule arg_cong)
  moreover have "?B = header_wire ?h"
    by (rule serialize_header_wire) simp
  moreover have "checksum (protocol_deserialize_header True (header_wire ?h)) = 0xC81FF2B7"
    by (simp only: deserialize_header_wire crc_handshake_req) simp
  moreover have "checksum ?h = 0"
    by (simp add: protocol_init_header_def)
  ultimately show False
    by simp
qed

text \<open>
  C4. What \<open>recv_message\<close> does with a header whose stored checksum is not the CRC-32 of
  its first 24 bytes: \<open>protocol_validate_header\<close> does not look at the checksum field, and
  \<open>recv_message\<close> computes no CRC-32, so a header with a valid magic, version and type is
  accepted whatever its checksum field holds, and \<open>payload_size\<close> bytes of payload are read
  as long as \<open>payload_size\<close> is at most \<open>max_payload_size\<close>.
\<close>

theorem header_crc_not_checked:
  "protocol_validate_header (h\<lparr>checksum := c\<rparr>) = protocol_validate_header h \<and>
   (inbox w = header_bytes h @ payload @ rest \<and> protocol_validate_header h = FT_SUCCESS \<and>
    unat (payload_size h) = length payload \<and> length payload \<le> max_payload \<and>
    checksum h \<noteq> crc32_compute (header_prefix h) \<longrightarrow>
      recv_message w max_payload = (Inr (h, payload), w\<lparr>inbox := rest\<rparr>))"
proof (intro conjI impI)
  show "protocol_validate_header (h\<lparr>checksum := c\<rparr>) = protocol_validate_header h"
    by (simp add: protocol_validate_header_def)
next
  assume "inbox w = header_bytes h @ payload @ rest \<and>
    protocol_validate_header h = FT_SUCCESS \<and>
    unat (payload_size h) = length payload \<and> length payload \<le> max_payload \<and>
    checksum h \<noteq> crc32_compute (header_prefix h)"
  then show "recv_message w max_payload = (Inr (h, payload), w\<lparr>inbox := rest\<rparr>)"
    by (intro recv_message_bytes) simp_all
qed

text \<open>
  The run at a corrupted header: a \<open>FILE_ACK\<close> message was sent with a payload of 4 bytes,
  byte 23 of its header (the last byte of \<open>payload_size\<close>) arrives as 5, and the first
  bytes of the next message follow. The stored checksum \<open>0xD863578B\<close> is not the CRC-32
  \<open>0xAF64671D\<close> of the 24 bytes received, and \<open>recv_message\<close> returns the header with a
  payload of 5 bytes, the fifth being the first byte of the next message.
\<close>

theorem header_crc_not_checked_witness:
  "header_bytes corrupted_header =
     (header_wire (protocol_init_header MSG_FILE_ACK 2 4))[23 := 5] \<and>
   protocol_validate_header corrupted_header = FT_SUCCESS \<and>
   checksum corrupted_header \<noteq> crc32_compute (header_prefix corrupted_header) \<and>
   recv_message
       (quiet_world (header_bytes corrupted_header @ [0, 0, 0, 0, 0x46] @ [0x54, 0x43])) 16 =
     (Inr (corrupted_header, [0, 0, 0, 0, 0x46]),
      (quiet_world (header_bytes corrupted_header @ [0, 0, 0, 0, 0x46] @ [0x54, 0x43]))
        \<lparr>inbox := [0x54, 0x43]\<rparr>)"
proof -
  let ?w = "quiet_world (header_bytes corrupted_header @ [0, 0, 0, 0, 0x46] @ [0x54, 0x43])"
  have b: "header_bytes corrupted_header =
      (header_wire (protocol_init_header MSG_FILE_ACK 2 4))[23 := 5]"
    by (simp only: corrupted_header_bytes sent_header_bytes(1))
  have i: "inbox ?w = header_bytes corrupted_header @ [0, 0, 0, 0, 0x46] @ [0x54, 0x43]"
    by (simp add: quiet_world_def)
  have s: "unat (payload_size corrupted_header) = length [0::u8, 0, 0, 0, 0x46]"
    "length [0::u8, 0, 0, 0, 0x46] \<le> 16"
    by (simp_all add: corrupted_header_valid(2))
  have c: "checksum corrupted_header \<noteq> crc32_compute (header_prefix corrupted_header)"
    by (simp add: corrupted_header_crc)
  show ?thesis
    using header_crc_not_checked [where w = ?w and h = corrupted_header
        and payload = "[0, 0, 0, 0, 0x46]" and rest = "[0x54, 0x43]" and max_payload = 16]
      b i s c corrupted_header_valid(1)
    by blast
qed

text \<open>
  C5. What \<open>file_sanitize_filename\<close> and the receiver do with a declared file name (the C
  string in \<open>FileInfo.filename\<close>). A name that contains \<open>..\<close> anywhere, or begins with
  \<open>/\<close> or \<open>\\\<close>, or begins with an upper-case letter \<open>A\<close> to \<open>Z\<close> and a colon, makes
  \<open>file_sanitize_filename\<close> return \<open>FT_ERR_INVALID_ARG\<close>, for every size of the output
  array; a receiver that got this name in the file info returns \<open>-1\<close> and leaves the file
  system as it was. The test under \<open>Check for absolute paths\<close> compares \<open>filename[0]\<close> with
  \<open>'A'\<close> and \<open>'Z'\<close> only: a name that begins with a lower-case letter \<open>a\<close> to \<open>z\<close> and a
  colon, and has no \<open>..\<close>, is not rejected. The result is \<open>FT_SUCCESS\<close> and the sanitized
  name begins with that letter (the colon is dropped by the copying loop).
\<close>

theorem drive_prefix_upper_case_only:
  "((\<exists>xs ys. name = xs @ ''..'' @ ys) \<or> (\<exists>rest. name = CHR ''/'' # rest) \<or>
    (\<exists>rest. name = CHR 0x5C # rest) \<or>
    (\<exists>d rest. name = d # CHR '':'' # rest \<and> CHR ''A'' \<le> d \<and> d \<le> CHR ''Z'') \<longrightarrow>
      fst (file_sanitize_filename name sz) = FT_ERR_INVALID_ARG \<and>
      (\<forall>w w1 w2 file_info output_dir.
         perform_handshake_server w = (Inr (), w1) \<and>
         recv_file_info w1 = (Inr file_info, w2) \<and>
         c_str (filename file_info) = name \<longrightarrow>
         fst (receive_file w output_dir) = -1 \<and>
         files (snd (receive_file w output_dir)) = files w)) \<and>
   (CHR ''a'' \<le> d \<and> d \<le> CHR ''z'' \<and> \<not> (\<exists>xs ys. rest = xs @ ''..'' @ ys) \<and> 2 \<le> sz \<longrightarrow>
      file_sanitize_filename (d # CHR '':'' # rest) sz =
        (FT_SUCCESS, d # sanitize_copy (CHR '':'' # rest) (sz - 2)))"
proof (intro conjI allI impI)
  assume bad: "(\<exists>xs ys. name = xs @ ''..'' @ ys) \<or> (\<exists>rest. name = CHR ''/'' # rest) \<or>
    (\<exists>rest. name = CHR 0x5C # rest) \<or>
    (\<exists>d rest. name = d # CHR '':'' # rest \<and> CHR ''A'' \<le> d \<and> d \<le> CHR ''Z'')"
  then show "fst (file_sanitize_filename name sz) = FT_ERR_INVALID_ARG"
    by (rule sanitize_rejects)
  fix w w1 w2 file_info output_dir
  assume run: "perform_handshake_server w = (Inr (), w1) \<and>
    recv_file_info w1 = (Inr file_info, w2) \<and> c_str (filename file_info) = name"
  let ?w3 = "snd (send_error w2 FT_ERR_INVALID_ARG 0 ''Invalid filename'' 2)"
  have hs: "perform_handshake_server w = (Inr (), w1)"
    and fi: "recv_file_info w1 = (Inr file_info, w2)"
    and nm: "c_str (filename file_info) = name"
    using run by simp_all
  have "fst (file_sanitize_filename name FT_MAX_FILENAME_LEN) = FT_ERR_INVALID_ARG"
    using bad by (rule sanitize_rejects)
  then obtain sn where san:
    "file_sanitize_filename name FT_MAX_FILENAME_LEN = (FT_ERR_INVALID_ARG, sn)"
    by (cases "file_sanitize_filename name FT_MAX_FILENAME_LEN") simp
  have res: "receive_file w output_dir = (-1, ?w3)"
    by (simp add: receive_file_def hs fi nm san)
  have "net_step w w1" "net_step w1 w2" "net_step w2 ?w3"
    using hs fi net_step_handshake_server [of w] net_step_recv_file_info [of w1]
      net_step_send_error [of w2]
    by simp_all
  then have "files w1 = files w" "files w2 = files w1" "files ?w3 = files w2"
    by (simp_all only: net_step_fields(1))
  then have "files ?w3 = files w"
    by simp
  with res show "fst (receive_file w output_dir) = -1"
    and "files (snd (receive_file w output_dir)) = files w"
    by simp_all
next
  assume "CHR ''a'' \<le> d \<and> d \<le> CHR ''z'' \<and> \<not> (\<exists>xs ys. rest = xs @ ''..'' @ ys) \<and> 2 \<le> sz"
  then show "file_sanitize_filename (d # CHR '':'' # rest) sz =
      (FT_SUCCESS, d # sanitize_copy (CHR '':'' # rest) (sz - 2))"
    by (intro lowercase_drive_passes) simp_all
qed

text \<open>
  A transfer of an empty file under the declared name \<open>../etc/passwd\<close>.
\<close>

definition bad_name_stream :: "u8 list" where
  "bad_name_stream =
     frame MSG_HANDSHAKE_REQ 0 handshake_payload @
     frame MSG_FILE_INFO 2
       (file_info_wire (file_info_for ''../etc/passwd'' 0 0 524288) (replicate 32 0))"

theorem drive_prefix_upper_case_only_witness:
  "fst (file_sanitize_filename ''../etc/passwd'' 256) = FT_ERR_INVALID_ARG \<and>
   fst (file_sanitize_filename ''/etc/passwd'' 256) = FT_ERR_INVALID_ARG \<and>
   fst (file_sanitize_filename (CHR 0x5C # ''boot.ini'') 256) = FT_ERR_INVALID_ARG \<and>
   fst (file_sanitize_filename ''C:boot.ini'' 256) = FT_ERR_INVALID_ARG \<and>
   fst (receive_file (quiet_world bad_name_stream) ''out'') = -1 \<and>
   files (snd (receive_file (quiet_world bad_name_stream) ''out'')) =
     files (quiet_world bad_name_stream) \<and>
   file_sanitize_filename ''c:boot.ini'' 256 = (FT_SUCCESS, ''cboot.ini'') \<and>
   fst (receive_file (quiet_world lower_drive_stream) ''out'') = 0 \<and>
   files (snd (receive_file (quiet_world lower_drive_stream) ''out'')) ''out/cboot.ini'' =
     Some []"
proof -
  have low: "CHR ''a'' \<le> CHR ''c'' \<and> CHR ''c'' \<le> CHR ''z'' \<and>
    \<not> (\<exists>xs ys. ''boot.ini'' = xs @ ''..'' @ ys) \<and> (2::nat) \<le> 256"
    using strstr_iff [of "''boot.ini''" "''..''"] by (simp add: less_eq_char_def)
  have "file_sanitize_filename (CHR ''c'' # CHR '':'' # ''boot.ini'') 256 =
      (FT_SUCCESS, CHR ''c'' # sanitize_copy (CHR '':'' # ''boot.ini'') (256 - 2))"
    using drive_prefix_upper_case_only [where d = "CHR ''c''" and rest = "''boot.ini''"
        and sz = 256] low
    by blast
  then have acc: "file_sanitize_filename ''c:boot.ini'' 256 = (FT_SUCCESS, ''cboot.ini'')"
    by (simp add: name_char_def)
  let ?name = "''../etc/passwd''"
  let ?fi = "file_info_wire (file_info_for ?name 0 0 524288) (replicate 32 0)"
  let ?w = "quiet_world bad_name_stream"
  let ?w1 = "?w\<lparr>inbox := frame MSG_FILE_INFO 2 ?fi @ [],
     outbox := outbox ?w @ frame MSG_HANDSHAKE_ACK (0 + 1) handshake_payload,
     send_budget := send_budget ?w - 36\<rparr>"
  have a: "(\<exists>xs ys. ?name = xs @ ''..'' @ ys) \<or> (\<exists>rest. ?name = CHR ''/'' # rest) \<or>
    (\<exists>rest. ?name = CHR 0x5C # rest) \<or>
    (\<exists>d rest. ?name = d # CHR '':'' # rest \<and> CHR ''A'' \<le> d \<and> d \<le> CHR ''Z'')"
    by (rule disjI1, rule exI [of _ "[]"], rule exI [of _ "''/etc/passwd''"]) simp
  have b: "(\<exists>xs ys. ''/etc/passwd'' = xs @ ''..'' @ ys) \<or>
    (\<exists>rest. ''/etc/passwd'' = CHR ''/'' # rest) \<or>
    (\<exists>rest. ''/etc/passwd'' = CHR 0x5C # rest) \<or>
    (\<exists>d rest. ''/etc/passwd'' = d # CHR '':'' # rest \<and> CHR ''A'' \<le> d \<and> d \<le> CHR ''Z'')"
    by simp
  have c: "(\<exists>xs ys. CHR 0x5C # ''boot.ini'' = xs @ ''..'' @ ys) \<or>
    (\<exists>rest. CHR 0x5C # ''boot.ini'' = CHR ''/'' # rest) \<or>
    (\<exists>rest. CHR 0x5C # ''boot.ini'' = CHR 0x5C # rest) \<or>
    (\<exists>d rest. CHR 0x5C # ''boot.ini'' = d # CHR '':'' # rest \<and> CHR ''A'' \<le> d \<and> d \<le> CHR ''Z'')"
    by simp
  have d: "(\<exists>xs ys. ''C:boot.ini'' = xs @ ''..'' @ ys) \<or>
    (\<exists>rest. ''C:boot.ini'' = CHR ''/'' # rest) \<or>
    (\<exists>rest. ''C:boot.ini'' = CHR 0x5C # rest) \<or>
    (\<exists>d rest. ''C:boot.ini'' = d # CHR '':'' # rest \<and> CHR ''A'' \<le> d \<and> d \<le> CHR ''Z'')"
    by simp
  have len: "length ?fi = 1024"
    by (simp add: length_file_info_wire file_info_for_def length_strncpy)
  have hs: "perform_handshake_server ?w = (Inr (), ?w1)"
    by (rule handshake_server_frame) (simp_all add: quiet_world_def bad_name_stream_def)
  have fi: "recv_file_info ?w1 =
      (Inr (protocol_deserialize_file_info (little_endian ?w1) ?fi), ?w1\<lparr>inbox := []\<rparr>)"
    using len by (intro recv_file_info_frame) simp_all
  have nm: "c_str (filename (protocol_deserialize_file_info (little_endian ?w1) ?fi)) = ?name"
    by (rule file_info_for_received) (simp_all add: NUL_def)
  note t1 = drive_prefix_upper_case_only [where name = ?name and sz = 256, THEN conjunct1,
      THEN mp, OF a]
  note t2 = drive_prefix_upper_case_only [where name = "''/etc/passwd''" and sz = 256,
      THEN conjunct1, THEN mp, OF b, THEN conjunct1]
  note t3 = drive_prefix_upper_case_only [where name = "CHR 0x5C # ''boot.ini''" and sz = 256,
      THEN conjunct1, THEN mp, OF c, THEN conjunct1]
  note t4 = drive_prefix_upper_case_only [where name = "''C:boot.ini''" and sz = 256,
      THEN conjunct1, THEN mp, OF d, THEN conjunct1]
  have rej: "fst (receive_file ?w ''out'') = -1 \<and> files (snd (receive_file ?w ''out'')) = files ?w"
    using t1 [THEN conjunct2] hs fi nm by blast
  have up: "fst (file_sanitize_filename ''../etc/passwd'' 256) = FT_ERR_INVALID_ARG \<and>
   fst (file_sanitize_filename ''/etc/passwd'' 256) = FT_ERR_INVALID_ARG \<and>
   fst (file_sanitize_filename (CHR 0x5C # ''boot.ini'') 256) = FT_ERR_INVALID_ARG \<and>
   fst (file_sanitize_filename ''C:boot.ini'' 256) = FT_ERR_INVALID_ARG \<and>
   fst (receive_file (quiet_world bad_name_stream) ''out'') = -1 \<and>
   files (snd (receive_file (quiet_world bad_name_stream) ''out'')) =
     files (quiet_world bad_name_stream)"
    using t1 [THEN conjunct1] t2 t3 t4 rej by simp
  show ?thesis
    using up acc lower_drive_run [OF acc] by simp
qed

text \<open>
  C6. The file info that \<open>send_file\<close> prepares from the metadata carries
  \<open>total_chunks = (file_size + chunk_size - 1) / chunk_size\<close> with the default chunk size,
  and for every file size that \<open>stat\<close> can report (an \<open>off_t\<close> that is not negative) this
  is the ceiling of \<open>file_size / chunk_size\<close>. This file info is the one \<open>send_file\<close>
  sends, so that the \<open>FILE_INFO\<close> message on the wire decodes to the same \<open>total_chunks\<close>,
  and the one its chunk loop runs on. In a run where the file size is 0, the handshake
  and the file info went through, the reply is \<open>MSG_FILE_ACK\<close> and the chunk buffer was
  allocated, \<open>total_chunks\<close> is 0, the chunk loop returns at once without touching the
  environment, and \<open>send_file\<close> returns 0 in the environment it had after the file ack.
\<close>

theorem total_chunks_ceiling:
  "(0 \<le> sint file_size' \<longrightarrow>
      int (unat (compute_total_chunks file_size' FT_DEFAULT_CHUNK_SIZE)) =
        \<lceil>real_of_int (sint file_size') / 524288\<rceil>) \<and>
   total_chunks (prepare_file_info metadata) =
     compute_total_chunks (md_file_size metadata) FT_DEFAULT_CHUNK_SIZE \<and>
   (0 \<le> sint (md_file_size metadata) \<longrightarrow>
      int (unat (total_chunks (prepare_file_info metadata))) =
        \<lceil>real_of_int (sint (md_file_size metadata)) / 524288\<rceil>) \<and>
   (1056 \<le> send_budget w1 \<longrightarrow>
      send_file_info w1 (prepare_file_info metadata) 2 =
        (Inr (),
         w1\<lparr>outbox := outbox w1 @ frame MSG_FILE_INFO 2
                 (file_info_wire (prepare_file_info metadata)
                    (drop 992 (stack_buffer w1 ''buffer'' FT_FILE_INFO_SIZE))),
            send_budget := send_budget w1 - 1056\<rparr>) \<and>
      total_chunks (protocol_deserialize_file_info le
          (file_info_wire (prepare_file_info metadata)
             (drop 992 (stack_buffer w1 ''buffer'' FT_FILE_INFO_SIZE)))) =
        total_chunks (prepare_file_info metadata)) \<and>
   (file_get_metadata w filepath = Inr metadata \<and>
    file_open_read w filepath = Inr f \<and>
    perform_handshake_client w = (Inr (), w1) \<and>
    send_file_info w1 (prepare_file_info metadata) 2 = (Inr (), w2) \<and>
    recv_message w2 16 = (Inr (header, ack_buf), w3) \<and>
    msg_type header = MSG_FILE_ACK \<and>
    malloc_ok w3 (unat FT_DEFAULT_CHUNK_SIZE) \<longrightarrow>
      send_file w filepath =
        (case send_chunks w3 f (prepare_file_info metadata) 0 3 of
           (sent, w4) \<Rightarrow> if sent then (0, w4) else (-1, w4)) \<and>
      (md_file_size metadata = 0 \<longrightarrow>
         total_chunks (prepare_file_info metadata) = 0 \<and>
         send_chunks w3 f (prepare_file_info metadata) 0 3 = (True, w3) \<and>
         send_file w filepath = (0, w3)))"
proof -
  have ceil: "int (unat (compute_total_chunks fs FT_DEFAULT_CHUNK_SIZE)) =
      \<lceil>real_of_int (sint fs) / 524288\<rceil>" if nonneg: "0 \<le> sint fs" for fs :: u64
  proof -
    have u: "unat fs < 2 ^ 63" "int (unat fs) = sint fs"
      using nonneg by (rule unat_of_off_t)+
    then have "unat fs + 524287 < 2 ^ 64"
      by simp
    then have "unat (compute_total_chunks fs FT_DEFAULT_CHUNK_SIZE) =
        (unat fs + 524288 - 1) div 524288"
      by (simp add: compute_total_chunks_default)
    moreover have "\<lceil>real (unat fs) / real (524288::nat)\<rceil> =
        int ((unat fs + 524288 - 1) div 524288)"
      by (rule ceiling_div_nat) simp
    ultimately have "int (unat (compute_total_chunks fs FT_DEFAULT_CHUNK_SIZE)) =
        \<lceil>real (unat fs) / real (524288::nat)\<rceil>"
      by simp
    also have "real (unat fs) = real_of_int (sint fs)"
      using u(2) by (metis of_int_of_nat_eq)
    finally show ?thesis
      by simp
  qed
  have total: "total_chunks (prepare_file_info metadata) =
      compute_total_chunks (md_file_size metadata) FT_DEFAULT_CHUNK_SIZE"
    by (simp add: prepare_file_info_def)
  have size: "chunk_size (prepare_file_info metadata) = FT_DEFAULT_CHUNK_SIZE"
    by (simp add: prepare_file_info_def)
  have types: "MSG_FILE_ACK \<noteq> MSG_ERROR"
    by (simp add: msg_defs)
  let ?tail = "drop 992 (stack_buffer w1 ''buffer'' FT_FILE_INFO_SIZE)"
  have wire: "protocol_serialize_file_info (little_endian w1) (prepare_file_info metadata)
      (stack_buffer w1 ''buffer'' FT_FILE_INFO_SIZE) =
    file_info_wire (prepare_file_info metadata) ?tail"
    by (rule serialize_file_info_wire)
      (simp_all add: FT_FILE_INFO_SIZE_def prepare_file_info_lengths)
  have decoded: "total_chunks (protocol_deserialize_file_info le
      (file_info_wire (prepare_file_info metadata) ?tail)) =
    total_chunks (prepare_file_info metadata)"
    by (simp add: deserialize_file_info_wire prepare_file_info_lengths)
  show ?thesis
  proof (intro conjI impI)
    assume "0 \<le> sint file_size'"
    then show "int (unat (compute_total_chunks file_size' FT_DEFAULT_CHUNK_SIZE)) =
        \<lceil>real_of_int (sint file_size') / 524288\<rceil>"
      by (rule ceil)
  next
    show "total_chunks (prepare_file_info metadata) =
        compute_total_chunks (md_file_size metadata) FT_DEFAULT_CHUNK_SIZE"
      by (rule total)
  next
    assume "0 \<le> sint (md_file_size metadata)"
    then show "int (unat (total_chunks (prepare_file_info metadata))) =
        \<lceil>real_of_int (sint (md_file_size metadata)) / 524288\<rceil>"
      by (simp only: total ceil)
  next
    assume "1056 \<le> send_budget w1"
    then show "send_file_info w1 (prepare_file_info metadata) 2 =
        (Inr (),
         w1\<lparr>outbox := outbox w1 @ frame MSG_FILE_INFO 2
                 (file_info_wire (prepare_file_info metadata) ?tail),
            send_budget := send_budget w1 - 1056\<rparr>)"
      by (simp only: send_file_info_ok wire)
  next
    show "total_chunks (protocol_deserialize_file_info le
        (file_info_wire (prepare_file_info metadata) ?tail)) =
      total_chunks (prepare_file_info metadata)"
      by (rule decoded)
  next
    assume run: "file_get_metadata w filepath = Inr metadata \<and>
      file_open_read w filepath = Inr f \<and>
      perform_handshake_client w = (Inr (), w1) \<and>
      send_file_info w1 (prepare_file_info metadata) 2 = (Inr (), w2) \<and>
      recv_message w2 16 = (Inr (header, ack_buf), w3) \<and>
      msg_type header = MSG_FILE_ACK \<and>
      malloc_ok w3 (unat FT_DEFAULT_CHUNK_SIZE)"
    then show general: "send_file w filepath =
        (case send_chunks w3 f (prepare_file_info metadata) 0 3 of
           (sent, w4) \<Rightarrow> if sent then (0, w4) else (-1, w4))"
      using size types by (simp add: send_file_def Let_def)
    assume empty: "md_file_size metadata = 0"
    have "compute_total_chunks 0 FT_DEFAULT_CHUNK_SIZE = 0"
      by (simp add: compute_total_chunks_def FT_DEFAULT_CHUNK_SIZE_def word_div_def)
    then show zero: "total_chunks (prepare_file_info metadata) = 0"
      using empty by (simp add: total)
    then show loop: "send_chunks w3 f (prepare_file_info metadata) 0 3 = (True, w3)"
      by (rule send_chunks_none)
    then show "send_file w filepath = (0, w3)"
      by (simp add: general)
  qed
qed

text \<open>
  The run on an empty file \<open>empty.bin\<close>, where the peer answers the handshake and the file
  info, and the file info prepared for a file of 700000 bytes, which needs two chunks.
\<close>

definition empty_file_world :: world where
  "empty_file_world =
     (quiet_world (frame MSG_HANDSHAKE_ACK 1 handshake_payload @
                   frame MSG_FILE_ACK 2 [0, 0, 0, 0]))
       \<lparr> files := (\<lambda>path. if path = ''empty.bin'' then Some [] else None),
         stats := (\<lambda>path. if path = ''empty.bin''
                    then Some \<lparr> st_size = 0, st_mode = 0x81A4, st_mtime = 0 \<rparr> else None) \<rparr>"

definition empty_metadata :: FileMetadata where
  "empty_metadata =
     \<lparr> md_filename = strncpy ''empty.bin'' 255 @ [NUL], md_file_size = 0,
       md_file_mode = 0x81A4, md_timestamp = 0 \<rparr>"

theorem total_chunks_ceiling_witness:
  "0 \<le> sint (700000::u64) \<and>
   int (unat (compute_total_chunks 700000 FT_DEFAULT_CHUNK_SIZE)) = 2 \<and>
   int (unat (total_chunks (prepare_file_info (empty_metadata\<lparr>md_file_size := 700000\<rparr>)))) = 2 \<and>
   \<lceil>real_of_int (sint (700000::u64)) / 524288\<rceil> = 2 \<and>
   file_get_metadata empty_file_world ''empty.bin'' = Inr empty_metadata \<and>
   md_file_size empty_metadata = 0 \<and>
   total_chunks (prepare_file_info empty_metadata) = 0 \<and>
   fst (send_file empty_file_world ''empty.bin'') = 0 \<and>
   outbox (snd (send_file empty_file_world ''empty.bin'')) =
     frame MSG_HANDSHAKE_REQ 0 handshake_payload @
     frame MSG_FILE_INFO 2
       (file_info_wire (prepare_file_info empty_metadata)
          (drop 992 (stack_buffer empty_file_world ''buffer'' 1024))) \<and>
   total_chunks (protocol_deserialize_file_info True
       (file_info_wire (prepare_file_info empty_metadata)
          (drop 992 (stack_buffer empty_file_world ''buffer'' 1024)))) = 0"
proof -
  let ?w = empty_file_world
  let ?md = empty_metadata
  let ?md7 = "empty_metadata\<lparr>md_file_size := 700000\<rparr>"
  let ?w1 = "?w\<lparr>inbox := frame MSG_FILE_ACK 2 [0, 0, 0, 0],
    outbox := outbox ?w @ frame MSG_HANDSHAKE_REQ 0 handshake_payload,
    send_budget := send_budget ?w - 36\<rparr>"
  let ?p = "file_info_wire (prepare_file_info ?md)
      (drop 992 (stack_buffer ?w1 ''buffer'' FT_FILE_INFO_SIZE))"
  let ?w2 = "?w1\<lparr>outbox := outbox ?w1 @ frame MSG_FILE_INFO 2 ?p,
    send_budget := send_budget ?w1 - 1056\<rparr>"
  have pos: "0 \<le> sint (700000::u64)" "0 \<le> sint (md_file_size ?md7)"
    by simp_all
  have c2: "\<lceil>real_of_int (sint (700000::u64)) / 524288\<rceil> = 2"
    by (rule ceiling_unique) simp_all
  have md: "file_get_metadata ?w ''empty.bin'' = Inr ?md"
    by (simp add: file_get_metadata_def empty_file_world_def empty_metadata_def S_ISREG_def
        basename_of_def PATH_SEPARATOR_def FT_MAX_FILENAME_LEN_def)
  have sz: "md_file_size ?md = 0"
    by (simp add: empty_metadata_def)
  have op: "file_open_read ?w ''empty.bin'' = Inr ''empty.bin''"
    by (simp add: file_open_read_def empty_file_world_def quiet_world_def)
  have hs: "perform_handshake_client ?w = (Inr (), ?w1)"
    by (rule handshake_client_frame) (simp_all add: empty_file_world_def quiet_world_def)
  have budget: "1056 \<le> send_budget ?w1"
    by (simp add: empty_file_world_def quiet_world_def)
  note t = total_chunks_ceiling [where file_size' = 700000 and metadata = ?md
      and ?w1.0 = ?w1 and w = ?w and filepath = "''empty.bin''" and f = "''empty.bin''"
      and le = True]
  note t7 = total_chunks_ceiling [where file_size' = 700000 and metadata = ?md7]
  have fi: "send_file_info ?w1 (prepare_file_info ?md) 2 = (Inr (), ?w2)"
    using t budget by blast
  have "inbox ?w2 = frame MSG_FILE_ACK 2 [0, 0, 0, 0] @ []"
    by simp
  then obtain h where ack: "recv_message ?w2 16 = (Inr (h, [0, 0, 0, 0]), ?w2\<lparr>inbox := []\<rparr>)"
    and ty: "msg_type h = MSG_FILE_ACK"
    using recv_message_framed [of ?w2 MSG_FILE_ACK 2 "[0, 0, 0, 0]" "[]" 16]
      msg_types_declared(4)
    by auto
  have mem: "malloc_ok (?w2\<lparr>inbox := []\<rparr>) (unat FT_DEFAULT_CHUNK_SIZE)"
    by (simp add: empty_file_world_def quiet_world_def)
  have run: "send_file ?w ''empty.bin'' = (0, ?w2\<lparr>inbox := []\<rparr>)"
    and zero: "total_chunks (prepare_file_info ?md) = 0"
    using t [where ?w2.0 = ?w2 and header = h and ack_buf = "[0, 0, 0, 0]"
        and ?w3.0 = "?w2\<lparr>inbox := []\<rparr>"] md sz op hs fi ack ty mem
    by blast+
  from t budget have "total_chunks (protocol_deserialize_file_info True ?p) =
      total_chunks (prepare_file_info ?md)"
    by blast
  then have dec: "total_chunks (protocol_deserialize_file_info True ?p) = 0"
    by (simp only: zero)
  from t7 pos(1) have "int (unat (compute_total_chunks 700000 FT_DEFAULT_CHUNK_SIZE)) =
      \<lceil>real_of_int (sint (700000::u64)) / 524288\<rceil>"
    by blast
  then have seven1: "int (unat (compute_total_chunks 700000 FT_DEFAULT_CHUNK_SIZE)) = 2"
    by (simp only: c2)
  have "md_file_size ?md7 = 700000"
    by simp
  with t7 pos(2) have "int (unat (total_chunks (prepare_file_info ?md7))) =
      \<lceil>real_of_int (sint (700000::u64)) / 524288\<rceil>"
    by metis
  then have seven2: "int (unat (total_chunks (prepare_file_info ?md7))) = 2"
    by (simp only: c2)
  have st: "stack_buffer ?w1 ''buffer'' FT_FILE_INFO_SIZE = stack_buffer ?w ''buffer'' 1024"
    by (simp add: stack_buffer_def FT_FILE_INFO_SIZE_def)
  have out: "outbox (?w2\<lparr>inbox := []\<rparr>) =
     frame MSG_HANDSHAKE_REQ 0 handshake_payload @
     frame MSG_FILE_INFO 2
       (file_info_wire (prepare_file_info ?md) (drop 992 (stack_buffer ?w ''buffer'' 1024)))"
    by (simp add: st) (simp add: empty_file_world_def quiet_world_def)
  show ?thesis
    using pos(1) c2 md sz zero seven1 seven2 dec [unfolded st] out
    by (simp only: run fst_conv snd_conv)
qed









text \<open>
  C9. \<open>protocol_validate_header\<close> succeeds exactly when the magic is \<open>0x46544350\<close>, the
  version is \<open>0x01\<close> and the message type is one of the declared types \<open>0x01..0x09\<close> or
  \<open>0xFF\<close>. It answers a bad magic with the protocol error, a bad version (under a good
  magic) with the version error, and an undeclared type (under a good magic and version,
  \<open>msg_type = 0\<close> included) with the invalid-message error.
\<close>

theorem validate_header_iff:
  "(protocol_validate_header h = FT_SUCCESS \<longleftrightarrow>
      magic h = 0x46544350 \<and> version h = 0x01 \<and> declared_msg_type (msg_type h)) \<and>
   (protocol_validate_header h = FT_ERR_PROTOCOL \<longleftrightarrow> magic h \<noteq> 0x46544350) \<and>
   (protocol_validate_header h = FT_ERR_VERSION \<longleftrightarrow>
      magic h = 0x46544350 \<and> version h \<noteq> 0x01) \<and>
   (protocol_validate_header h = FT_ERR_INVALID_MSG \<longleftrightarrow>
      magic h = 0x46544350 \<and> version h = 0x01 \<and> \<not> declared_msg_type (msg_type h))"
  using validate_type_check [of "msg_type h"]
  by (auto simp: protocol_validate_header_def FT_MAGIC_NUMBER_def FT_PROTOCOL_VERSION_def)

text \<open>
  C10. For every 1024-byte buffer, on either byte order, \<open>protocol_deserialize_file_info\<close>
  yields a filename field of 256 characters whose last one (index 255) is NUL, so the C
  string in the field has at most 255 characters and ends inside the field, also when
  all 256 filename bytes of the buffer are non-zero.
\<close>

theorem deserialize_file_info_terminated:
  assumes "length buffer = 1024"
  shows "length (filename (protocol_deserialize_file_info le buffer)) = 256 \<and>
         filename (protocol_deserialize_file_info le buffer) ! 255 = NUL \<and>
         length (c_str (filename (protocol_deserialize_file_info le buffer))) \<le> 255"
proof -
  let ?f = "filename (protocol_deserialize_file_info le buffer)"
  have len: "length ?f = 256"
    using assms
    by (simp add: protocol_deserialize_file_info_def load_bytes_def FT_MAX_FILENAME_LEN_def)
  have last: "?f ! 255 = NUL"
    using assms
    by (simp add: protocol_deserialize_file_info_def load_bytes_def FT_MAX_FILENAME_LEN_def)
  have "length (c_str ?f) \<le> 255"
    using len last by (simp add: c_str_length_le)
  with len last show ?thesis
    by simp
qed

theorem deserialize_file_info_terminated_witness:
  "length (replicate 1024 (0x41::u8)) = 1024 \<and>
   length (filename (protocol_deserialize_file_info True (replicate 1024 0x41))) = 256 \<and>
   filename (protocol_deserialize_file_info True (replicate 1024 0x41)) ! 255 = NUL \<and>
   length (c_str (filename (protocol_deserialize_file_info True (replicate 1024 0x41)))) \<le> 255"
  using deserialize_file_info_terminated [where buffer = "replicate 1024 0x41" and le = True]
  by (simp only: length_replicate simp_thms)

end
